theory Spec2Isabelle
  imports Complex_Main
begin

section \<open>JavaScript values\<close>

text \<open>
  The pipeline of \<^verbatim>\<open>clip-postal-geojson\<close> works on parsed GeoJSON and on the numbers the
  geometry library returns. A JavaScript number is modelled by its value when it is
  finite, and by one constructor each for \<^verbatim>\<open>NaN\<close>, \<^verbatim>\<open>Infinity\<close> and \<^verbatim>\<open>-Infinity\<close>; rounding
  is not modelled. The comparisons are JavaScript's: every comparison with \<^verbatim>\<open>NaN\<close> is
  false.
\<close>

datatype jsnum = NaN | NegInf | Num rat | PosInf

fun js_lt :: "jsnum \<Rightarrow> jsnum \<Rightarrow> bool" where
  "js_lt NaN b = False"
| "js_lt a NaN = False"
| "js_lt NegInf NegInf = False"
| "js_lt NegInf b = True"
| "js_lt (Num x) NegInf = False"
| "js_lt (Num x) (Num y) = (x < y)"
| "js_lt (Num x) PosInf = True"
| "js_lt PosInf b = False"

definition js_gt :: "jsnum \<Rightarrow> jsnum \<Rightarrow> bool" where
  "js_gt a b = js_lt b a"

fun js_le :: "jsnum \<Rightarrow> jsnum \<Rightarrow> bool" where
  "js_le NaN b = False"
| "js_le a NaN = False"
| "js_le NegInf b = True"
| "js_le (Num x) NegInf = False"
| "js_le (Num x) (Num y) = (x \<le> y)"
| "js_le (Num x) PosInf = True"
| "js_le PosInf PosInf = True"
| "js_le PosInf b = False"

definition js_ge :: "jsnum \<Rightarrow> jsnum \<Rightarrow> bool" where
  "js_ge a b = js_le b a"

text \<open>
  A property value is a JSON primitive. \<^verbatim>\<open>!v\<close> is true for \<^verbatim>\<open>null\<close>, \<^verbatim>\<open>false\<close>, \<^verbatim>\<open>0\<close> and the
  empty string; a missing property (\<^verbatim>\<open>undefined\<close>) is the absence of the key. On these
  values the key equality of a JavaScript \<^verbatim>\<open>Map\<close> is equality.
\<close>

datatype jsval = JNull | JBool bool | JNum rat | JStr string

fun truthy :: "jsval \<Rightarrow> bool" where
  "truthy JNull = False"
| "truthy (JBool b) = b"
| "truthy (JNum n) = (n \<noteq> 0)"
| "truthy (JStr s) = (s \<noteq> [])"

type_synonym props = "(string \<times> jsval) list"

section \<open>GeoJSON\<close>

text \<open>Coordinates are nested arrays of numbers.\<close>

datatype coords = N jsnum | A "coords list"

record geometry =
  gtype :: string
  coordinates :: coords

text \<open>
  A feature has \<^verbatim>\<open>properties\<close> and \<^verbatim>\<open>geometry\<close>, each of which may be \<^verbatim>\<open>null\<close> or missing
  (\<open>None\<close>). A parsed document is a feature collection, a single feature, or a bare
  geometry.
\<close>

record feature =
  properties :: "props option"
  geometry :: "geometry option"

datatype doc = FeatureCollection "feature list" | SingleFeature feature | BareGeometry geometry

text \<open>\<^verbatim>\<open>doc.features\<close>: defined for a feature collection only.\<close>

fun features :: "doc \<Rightarrow> feature list option" where
  "features (FeatureCollection fs) = Some fs"
| "features (SingleFeature f) = None"
| "features (BareGeometry g) = None"

text \<open>\<^verbatim>\<open>feature?.properties?.postnummer\<close>\<close>

definition postnummer :: "feature \<Rightarrow> jsval option" where
  "postnummer f = (case properties f of None \<Rightarrow> None | Some ps \<Rightarrow> map_of ps ''postnummer'')"

text \<open>\<^verbatim>\<open>feature.properties || {}\<close>\<close>

definition properties_or_empty :: "feature \<Rightarrow> props" where
  "properties_or_empty f = (case properties f of None \<Rightarrow> [] | Some ps \<Rightarrow> ps)"

section \<open>The geometry library\<close>

text \<open>
  The operations of \<^verbatim>\<open>@turf/turf\<close> are not part of the repository: they are parameters of
  the model. Each either throws or returns; \<^verbatim>\<open>union\<close>, \<^verbatim>\<open>intersect\<close> and \<^verbatim>\<open>difference\<close>
  return \<^verbatim>\<open>null\<close> (\<open>None\<close>) when the resulting geometry is empty. The two features of
  \<^verbatim>\<open>turf.featureCollection([a, b])\<close> are passed as two arguments.
\<close>

datatype 'a res = Threw | Ret 'a

type_synonym bbox = "jsnum \<times> jsnum \<times> jsnum \<times> jsnum"

record turf =
  t_union :: "feature \<Rightarrow> feature \<Rightarrow> feature option res"
  t_intersect :: "feature \<Rightarrow> feature \<Rightarrow> feature option res"
  t_difference :: "feature \<Rightarrow> feature \<Rightarrow> feature option res"
  t_bbox :: "feature \<Rightarrow> bbox res"
  t_centroid :: "feature \<Rightarrow> feature res"
  t_area :: "feature \<Rightarrow> jsnum res"
  t_distance :: "feature \<Rightarrow> feature \<Rightarrow> jsnum res"
  t_polygon :: "coords \<Rightarrow> feature res"

section \<open>Mask normalizer and mask unifier\<close>

text \<open>The features of the collection that \<^verbatim>\<open>normalizeMask\<close> returns.\<close>

fun normalizeMask :: "doc \<Rightarrow> feature list" where
  "normalizeMask (FeatureCollection fs) = map (\<lambda>feature. feature) fs"
| "normalizeMask (SingleFeature msk) = [msk]"
| "normalizeMask (BareGeometry msk) = [\<lparr>properties = Some [], geometry = Some msk\<rparr>]"

text \<open>
  The loop of \<^verbatim>\<open>unionMask\<close>, with \<open>merged\<close> as its state. \<^verbatim>\<open>!merged\<close> holds before the first
  feature and after a union that returned \<^verbatim>\<open>null\<close>; a union that throws leaves \<open>merged\<close>
  as it was.
\<close>

fun unionMask_loop :: "turf \<Rightarrow> feature option \<Rightarrow> feature list \<Rightarrow> feature option" where
  "unionMask_loop T merged [] = merged"
| "unionMask_loop T merged (feature # rest) =
     (case merged of
        None \<Rightarrow> unionMask_loop T (Some feature) rest
      | Some m \<Rightarrow>
          (case t_union T m feature of
             Threw \<Rightarrow> unionMask_loop T (Some m) rest
           | Ret u \<Rightarrow> unionMask_loop T u rest))"

definition unionMask :: "turf \<Rightarrow> feature list \<Rightarrow> feature option" where
  "unionMask T fs = unionMask_loop T None fs"

text \<open>
  The step of the fold as the specification words it: the accumulator is replaced by the
  union when the union succeeds and kept when it fails. An accumulator that is empty
  takes the feature itself.
\<close>

definition union_or_keep :: "turf \<Rightarrow> feature option \<Rightarrow> feature \<Rightarrow> feature option" where
  "union_or_keep T acc g =
     (case acc of
        None \<Rightarrow> Some g
      | Some m \<Rightarrow> (case t_union T m g of Threw \<Rightarrow> Some m | Ret u \<Rightarrow> u))"

section \<open>Errors\<close>

text \<open>
  An exception that no \<^verbatim>\<open>try\<close> of the script catches ends the run. \<open>GeometryError\<close> is an
  exception thrown by the geometry library, \<open>TypeError\<close> a property read on \<^verbatim>\<open>undefined\<close> or
  \<^verbatim>\<open>null\<close>, \<open>ReadError\<close> a file that cannot be read or parsed; the other two are the
  errors \<^verbatim>\<open>run\<close> throws itself.
\<close>

datatype error = TypeError | GeometryError | ReadError | MissingMask | NoMaskGeometry

text \<open>\<^verbatim>\<open>xs.map(f)\<close> where \<open>f\<close> may throw: the first exception ends the map.\<close>

fun map_res :: "('a \<Rightarrow> 'b res) \<Rightarrow> 'a list \<Rightarrow> error + 'b list" where
  "map_res f [] = Inr []"
| "map_res f (x # xs) =
     (case f x of
        Threw \<Rightarrow> Inl GeometryError
      | Ret y \<Rightarrow> (case map_res f xs of Inl e \<Rightarrow> Inl e | Inr ys \<Rightarrow> Inr (y # ys)))"

text \<open>\<^verbatim>\<open>xs.forEach(body)\<close> where \<open>body\<close> pushes onto one output array and may throw.\<close>

fun for_each :: "('a \<Rightarrow> error + 'b list) \<Rightarrow> 'a list \<Rightarrow> error + 'b list" where
  "for_each body [] = Inr []"
| "for_each body (x # xs) =
     (case body x of
        Inl e \<Rightarrow> Inl e
      | Inr ys \<Rightarrow> (case for_each body xs of Inl e \<Rightarrow> Inl e | Inr zs \<Rightarrow> Inr (ys @ zs)))"

text \<open>\<^verbatim>\<open>doc.features || []\<close>\<close>

definition features_or_empty :: "doc \<Rightarrow> feature list" where
  "features_or_empty d = (case features d of None \<Rightarrow> [] | Some fs \<Rightarrow> fs)"

section \<open>Boundary clipper\<close>

text \<open>The rectangle test of \<^verbatim>\<open>clipPostalCodes\<close>; a box is \<^verbatim>\<open>[minX, minY, maxX, maxY]\<close>.\<close>

fun overlaps :: "bbox \<Rightarrow> bbox \<Rightarrow> bool" where
  "overlaps (f0, f1, f2, f3) (l0, l1, l2, l3) =
     (js_le f0 l2 \<and> js_ge f2 l0 \<and> js_le f1 l3 \<and> js_ge f3 l1)"

text \<open>What the clipper does with a candidate that passed the rectangle test.\<close>

definition intersect_feature :: "turf \<Rightarrow> feature \<Rightarrow> feature \<Rightarrow> feature list" where
  "intersect_feature T landMask f =
     (case t_intersect T f landMask of
        Threw \<Rightarrow> []
      | Ret None \<Rightarrow> []
      | Ret (Some intersected) \<Rightarrow>
          (case geometry intersected of
             None \<Rightarrow> []
           | Some g \<Rightarrow> [\<lparr>properties = Some (properties_or_empty f), geometry = Some g\<rparr>]))"

text \<open>The body of the loop of \<^verbatim>\<open>clipPostalCodes\<close>: the features it pushes for one input.\<close>

definition clip_feature :: "turf \<Rightarrow> feature \<Rightarrow> bbox \<Rightarrow> feature \<Rightarrow> feature list" where
  "clip_feature T landMask landBbox f =
     (if geometry f = None then []
      else
        (case t_bbox T f of
           Threw \<Rightarrow> []
         | Ret featureBbox \<Rightarrow>
             if \<not> overlaps featureBbox landBbox then []
             else intersect_feature T landMask f))"

definition clipPostalCodes :: "turf \<Rightarrow> doc \<Rightarrow> feature \<Rightarrow> error + feature list" where
  "clipPostalCodes T postalData landMask =
     (case t_bbox T landMask of
        Threw \<Rightarrow> Inl GeometryError
      | Ret landBbox \<Rightarrow>
          Inr (concat (map (clip_feature T landMask landBbox) (features_or_empty postalData))))"

section \<open>Gap builder\<close>

definition buildGapFeatures :: "turf \<Rightarrow> feature \<Rightarrow> feature option \<Rightarrow> error + feature list" where
  "buildGapFeatures T landMask unionedPostal =
     (case unionedPostal of
        None \<Rightarrow> Inr []
      | Some u \<Rightarrow>
          (case t_difference T landMask u of
             Threw \<Rightarrow> Inr []
           | Ret None \<Rightarrow> Inr []
           | Ret (Some diff) \<Rightarrow>
               (case geometry diff of
                  None \<Rightarrow> Inl TypeError
                | Some g \<Rightarrow>
                    if gtype g = ''MultiPolygon'' then
                      (case coordinates g of
                         N x \<Rightarrow> Inl TypeError
                       | A cs \<Rightarrow> map_res (t_polygon T) cs)
                    else Inr [diff])))"

section \<open>Gap assigner\<close>

text \<open>
  The linear scan over \<^verbatim>\<open>centroidCache\<close>. An entry is the pair of a feature and its
  centroid, \<open>best\<close> the pair of a distance and a feature.
\<close>

fun nearest_loop ::
  "turf \<Rightarrow> feature \<Rightarrow> (jsnum \<times> feature) option \<Rightarrow> (feature \<times> feature) list \<Rightarrow>
     error + (jsnum \<times> feature) option" where
  "nearest_loop T gapCenter best [] = Inr best"
| "nearest_loop T gapCenter best (entry # rest) =
     (case t_distance T gapCenter (snd entry) of
        Threw \<Rightarrow> Inl GeometryError
      | Ret distance \<Rightarrow>
          (case best of
             None \<Rightarrow> nearest_loop T gapCenter (Some (distance, fst entry)) rest
           | Some b \<Rightarrow>
               if js_lt distance (fst b)
               then nearest_loop T gapCenter (Some (distance, fst entry)) rest
               else nearest_loop T gapCenter (Some b) rest))"

text \<open>The body of \<^verbatim>\<open>gaps.forEach\<close>: the additions pushed for one gap.\<close>

definition assign_gap ::
  "turf \<Rightarrow> jsnum \<Rightarrow> (feature \<times> feature) list \<Rightarrow> feature \<Rightarrow> error + feature list" where
  "assign_gap T gap_area_max centroidCache gapFeature =
     (case t_area T gapFeature of
        Threw \<Rightarrow> Inl GeometryError
      | Ret area \<Rightarrow>
          if js_gt area gap_area_max then Inr []
          else
            (case t_centroid T gapFeature of
               Threw \<Rightarrow> Inl GeometryError
             | Ret gapCenter \<Rightarrow>
                 (case nearest_loop T gapCenter None centroidCache of
                    Inl e \<Rightarrow> Inl e
                  | Inr None \<Rightarrow> Inr []
                  | Inr (Some best) \<Rightarrow>
                      Inr [\<lparr>properties = Some (properties_or_empty (snd best)),
                            geometry = geometry gapFeature\<rparr>])))"

definition centroid_entry :: "turf \<Rightarrow> feature \<Rightarrow> (feature \<times> feature) res" where
  "centroid_entry T f = (case t_centroid T f of Threw \<Rightarrow> Threw | Ret c \<Rightarrow> Ret (f, c))"

definition assignGapsToNearest ::
  "turf \<Rightarrow> jsnum \<Rightarrow> doc \<Rightarrow> feature list \<Rightarrow> error + feature list" where
  "assignGapsToNearest T gap_area_max clipped gaps =
     (if gaps = [] then Inr []
      else
        (case features clipped of
           None \<Rightarrow> Inl TypeError
         | Some fs \<Rightarrow>
             (case map_res (centroid_entry T) fs of
                Inl e \<Rightarrow> Inl e
              | Inr centroidCache \<Rightarrow> for_each (assign_gap T gap_area_max centroidCache) gaps)))"

section \<open>Dissolver\<close>

text \<open>
  \<open>grouped\<close> is a \<^verbatim>\<open>Map\<close>, which iterates in the order its keys were first set: an
  association list with distinct keys. \<open>group_push\<close> is
  \<^verbatim>\<open>if (!grouped.has(p)) grouped.set(p, []); grouped.get(p).push(feature)\<close>.
\<close>

fun group_push ::
  "jsval \<Rightarrow> feature \<Rightarrow> (jsval \<times> feature list) list \<Rightarrow> (jsval \<times> feature list) list" where
  "group_push p f [] = [(p, [f])]"
| "group_push p f (kg # grouped) =
     (if fst kg = p then (fst kg, snd kg @ [f]) # grouped else kg # group_push p f grouped)"

fun group_loop ::
  "(jsval \<times> feature list) list \<Rightarrow> feature list \<Rightarrow> (jsval \<times> feature list) list" where
  "group_loop grouped [] = grouped"
| "group_loop grouped (feature # rest) =
     (case postnummer feature of
        None \<Rightarrow> group_loop grouped rest
      | Some p \<Rightarrow>
          if \<not> truthy p then group_loop grouped rest
          else group_loop (group_push p feature grouped) rest)"

text \<open>
  The body of the loop over \<^verbatim>\<open>grouped.entries()\<close>. Its inner loop is the loop of
  \<^verbatim>\<open>unionMask\<close>, statement for statement.
\<close>

definition dissolve_group :: "turf \<Rightarrow> jsval \<times> feature list \<Rightarrow> feature list" where
  "dissolve_group T kg =
     (case unionMask_loop T None (snd kg) of
        None \<Rightarrow> []
      | Some merged \<Rightarrow>
          (case geometry merged of
             None \<Rightarrow> []
           | Some g \<Rightarrow> [\<lparr>properties = Some [(''postnummer'', fst kg)], geometry = Some g\<rparr>]))"

definition dissolveByPostnummer :: "turf \<Rightarrow> feature list \<Rightarrow> feature list" where
  "dissolveByPostnummer T fs = concat (map (dissolve_group T) (group_loop [] fs))"

section \<open>Label builder\<close>

text \<open>
  The body of the loop of \<^verbatim>\<open>buildLabelPoints\<close>. A \<^verbatim>\<open>postnummer\<close> that is \<^verbatim>\<open>undefined\<close> is a
  key that serialization drops: the label has no such property.
\<close>

definition label_feature :: "turf \<Rightarrow> feature \<Rightarrow> feature list" where
  "label_feature T f =
     (case t_centroid T f of
        Threw \<Rightarrow> []
      | Ret c \<Rightarrow>
          [\<lparr>properties =
              Some (case postnummer f of None \<Rightarrow> [] | Some p \<Rightarrow> [(''postnummer'', p)]),
            geometry = geometry c\<rparr>])"

definition buildLabelPoints :: "turf \<Rightarrow> doc \<Rightarrow> feature list" where
  "buildLabelPoints T dissolved = concat (map (label_feature T) (features_or_empty dissolved))"

section \<open>Configuration and the run\<close>

text \<open>
  What the script reads from its process: the environment variables, the conversion
  \<^verbatim>\<open>Number\<close> of the language, and the files (\<open>None\<close> for a file that cannot be read or
  parsed).
\<close>

record sys =
  env :: "string \<Rightarrow> string option"
  Number :: "string \<Rightarrow> jsnum"
  readJSON :: "string \<Rightarrow> doc option"

text \<open>A string from the environment is falsy when it is unset or empty.\<close>

definition str_truthy :: "string option \<Rightarrow> bool" where
  "str_truthy v = (case v of None \<Rightarrow> False | Some s \<Rightarrow> s \<noteq> [])"

definition or_str :: "string option \<Rightarrow> string option \<Rightarrow> string option" where
  "or_str a b = (if str_truthy a then a else b)"

definition POSTAL_PATH :: string where
  "POSTAL_PATH = ''../public/postal-codes.geojson''"

definition MASK_PATH :: "sys \<Rightarrow> string option" where
  "MASK_PATH S = env S ''NORWAY_MASK_PATH''"

definition BORDER_MASK_PATH :: "sys \<Rightarrow> string option" where
  "BORDER_MASK_PATH S = env S ''BORDER_MASK_PATH''"

definition CLIP_MODE :: "sys \<Rightarrow> string" where
  "CLIP_MODE S = (if str_truthy (env S ''CLIP_MODE'') then the (env S ''CLIP_MODE'') else ''coast'')"

text \<open>\<^verbatim>\<open>Number(process.env.GAP_AREA_MAX || Infinity)\<close>\<close>

definition GAP_AREA_MAX :: "sys \<Rightarrow> jsnum" where
  "GAP_AREA_MAX S =
     (case env S ''GAP_AREA_MAX'' of
        None \<Rightarrow> PosInf
      | Some s \<Rightarrow> if s = [] then PosInf else Number S s)"

definition loadGeoJSON :: "sys \<Rightarrow> string option \<Rightarrow> error + doc" where
  "loadGeoJSON S filePath =
     (case filePath of
        None \<Rightarrow> Inl ReadError
      | Some p \<Rightarrow> (case readJSON S p of None \<Rightarrow> Inl ReadError | Some d \<Rightarrow> Inr d))"

text \<open>The mask of a run: \<^verbatim>\<open>unionMask(normalizeMask(loadGeoJSON(maskPath)).features)\<close>.\<close>

definition load_mask :: "sys \<Rightarrow> turf \<Rightarrow> string option \<Rightarrow> error + feature" where
  "load_mask S T maskPath =
     (case loadGeoJSON S maskPath of
        Inl e \<Rightarrow> Inl e
      | Inr maskData \<Rightarrow>
          (case unionMask T (normalizeMask maskData) of
             None \<Rightarrow> Inl NoMaskGeometry
           | Some m \<Rightarrow> Inr m))"

text \<open>The branch \<^verbatim>\<open>CLIP_MODE === 'gapfill-border'\<close> of \<^verbatim>\<open>run\<close>.\<close>

definition gapfill_border :: "sys \<Rightarrow> turf \<Rightarrow> doc \<Rightarrow> error + doc" where
  "gapfill_border S T postalData =
     (let maskPath = or_str (BORDER_MASK_PATH S) (MASK_PATH S) in
      if \<not> str_truthy maskPath then Inl MissingMask
      else
        (case load_mask S T maskPath of
           Inl e \<Rightarrow> Inl e
         | Inr borderMask \<Rightarrow>
             (case buildGapFeatures T borderMask (unionMask T (features_or_empty postalData)) of
                Inl e \<Rightarrow> Inl e
              | Inr gaps \<Rightarrow>
                  (case assignGapsToNearest T (GAP_AREA_MAX S) postalData gaps of
                     Inl e \<Rightarrow> Inl e
                   | Inr additions \<Rightarrow>
                       Inr (FeatureCollection (features_or_empty postalData @ additions))))))"

text \<open>The last branch of \<^verbatim>\<open>run\<close>: clipping, and for \<^verbatim>\<open>coast\<close> the gap fill.\<close>

definition clip_and_fill :: "sys \<Rightarrow> turf \<Rightarrow> doc \<Rightarrow> error + doc" where
  "clip_and_fill S T postalData =
     (let maskPath =
        (if CLIP_MODE S = ''border'' then or_str (BORDER_MASK_PATH S) (MASK_PATH S)
         else MASK_PATH S) in
      case load_mask S T maskPath of
        Inl e \<Rightarrow> Inl e
      | Inr landMask \<Rightarrow>
          (case clipPostalCodes T postalData landMask of
             Inl e \<Rightarrow> Inl e
           | Inr clipped \<Rightarrow>
               if CLIP_MODE S = ''coast'' then
                 (case buildGapFeatures T landMask (unionMask T clipped) of
                    Inl e \<Rightarrow> Inl e
                  | Inr gaps \<Rightarrow>
                      (case assignGapsToNearest T (GAP_AREA_MAX S) (FeatureCollection clipped) gaps of
                         Inl e \<Rightarrow> Inl e
                       | Inr additions \<Rightarrow> Inr (FeatureCollection (clipped @ additions))))
               else Inr (FeatureCollection clipped)))"

definition build_output :: "sys \<Rightarrow> turf \<Rightarrow> doc \<Rightarrow> error + doc" where
  "build_output S T postalData =
     (if CLIP_MODE S = ''none'' then Inr postalData
      else if CLIP_MODE S = ''gapfill-border'' then gapfill_border S T postalData
      else clip_and_fill S T postalData)"

text \<open>
  The files a run has written when it ends, and its exit status. The three outputs are
  written one after the other, so an exception leaves the earlier ones written.
\<close>

record outcome =
  output_file :: "doc option"
  dissolved_file :: "doc option"
  labels_file :: "doc option"
  exit_status :: nat

definition run :: "sys \<Rightarrow> turf \<Rightarrow> outcome" where
  "run S T =
     (case loadGeoJSON S (Some POSTAL_PATH) of
        Inl e \<Rightarrow>
          \<lparr>output_file = None, dissolved_file = None, labels_file = None, exit_status = 1\<rparr>
      | Inr postalData \<Rightarrow>
          (case build_output S T postalData of
             Inl e \<Rightarrow>
               \<lparr>output_file = None, dissolved_file = None, labels_file = None, exit_status = 1\<rparr>
           | Inr out \<Rightarrow>
               (case features out of
                  None \<Rightarrow>
                    \<lparr>output_file = Some out, dissolved_file = None, labels_file = None,
                      exit_status = 1\<rparr>
                | Some fs \<Rightarrow>
                    (let dissolved = FeatureCollection (dissolveByPostnummer T fs);
                         labels = FeatureCollection (buildLabelPoints T dissolved)
                     in \<lparr>output_file = Some out, dissolved_file = Some dissolved,
                          labels_file = Some labels, exit_status = 0\<rparr>))))"

text \<open>The script: the check of the mask paths at load time, then \<^verbatim>\<open>run\<close>.\<close>

definition script :: "sys \<Rightarrow> turf \<Rightarrow> outcome" where
  "script S T =
     (if CLIP_MODE S \<noteq> ''none'' \<and> \<not> str_truthy (MASK_PATH S) \<and> \<not> str_truthy (BORDER_MASK_PATH S)
      then \<lparr>output_file = None, dissolved_file = None, labels_file = None, exit_status = 1\<rparr>
      else run S T)"

text \<open>The codes of a feature list: the values of \<^verbatim>\<open>properties.postnummer\<close> that occur in it.\<close>

definition codes :: "feature list \<Rightarrow> jsval set" where
  "codes fs = set (List.map_filter postnummer fs)"

section \<open>A geometry library on a line\<close>

text \<open>
  An executable interpretation of the library's operations, for evaluating the pipeline
  on concrete inputs: a geometry covers the cells that its coordinates name, all on one
  line. As in the library, an operation on a \<^verbatim>\<open>null\<close> geometry throws, a result with no
  cell is \<^verbatim>\<open>null\<close>, a result with one part is a \<^verbatim>\<open>Polygon\<close> and one with several a
  \<^verbatim>\<open>MultiPolygon\<close>, the box of nothing is \<^verbatim>\<open>[Infinity, Infinity, -Infinity, -Infinity]\<close>, and
  the centroid of a geometry without coordinates throws.
\<close>

fun leaves :: "coords \<Rightarrow> jsnum list" where
  "leaves (N x) = [x]"
| "leaves (A cs) = concat (map leaves cs)"

definition cells :: "feature \<Rightarrow> jsnum list option" where
  "cells f = (case geometry f of None \<Rightarrow> None | Some g \<Rightarrow> Some (remdups (leaves (coordinates g))))"

definition cell_polygon :: "jsnum \<Rightarrow> coords" where
  "cell_polygon c = A [N c]"

fun cells_feature :: "jsnum list \<Rightarrow> feature option" where
  "cells_feature [] = None"
| "cells_feature [c] =
     Some \<lparr>properties = Some [],
           geometry = Some \<lparr>gtype = ''Polygon'', coordinates = cell_polygon c\<rparr>\<rparr>"
| "cells_feature cs =
     Some \<lparr>properties = Some [],
           geometry = Some \<lparr>gtype = ''MultiPolygon'', coordinates = A (map cell_polygon cs)\<rparr>\<rparr>"

definition line_op ::
  "(jsnum list \<Rightarrow> jsnum list \<Rightarrow> jsnum list) \<Rightarrow> feature \<Rightarrow> feature \<Rightarrow> feature option res" where
  "line_op op a b =
     (case cells a of
        None \<Rightarrow> Threw
      | Some x \<Rightarrow> (case cells b of None \<Rightarrow> Threw | Some y \<Rightarrow> Ret (cells_feature (op x y))))"

fun extend_bbox :: "bbox \<Rightarrow> jsnum \<Rightarrow> bbox" where
  "extend_bbox (b0, b1, b2, b3) x =
     (if js_gt b0 x then x else b0, if js_gt b1 (Num 0) then Num 0 else b1,
      if js_lt b2 x then x else b2, if js_lt b3 (Num 0) then Num 0 else b3)"

definition line_bbox :: "feature \<Rightarrow> bbox res" where
  "line_bbox f =
     Ret (foldl extend_bbox (PosInf, PosInf, NegInf, NegInf)
            (case cells f of None \<Rightarrow> [] | Some cs \<Rightarrow> cs))"

definition point_at :: "jsnum \<Rightarrow> feature" where
  "point_at c =
     \<lparr>properties = Some [],
      geometry = Some \<lparr>gtype = ''Point'', coordinates = A [N c, N (Num 0)]\<rparr>\<rparr>"

definition line_centroid :: "feature \<Rightarrow> feature res" where
  "line_centroid f =
     (case cells f of
        None \<Rightarrow> Threw
      | Some [] \<Rightarrow> Threw
      | Some (c # cs) \<Rightarrow> Ret (point_at c))"

definition line_area :: "feature \<Rightarrow> jsnum res" where
  "line_area f = (case cells f of None \<Rightarrow> Ret (Num 0) | Some cs \<Rightarrow> Ret (Num (of_nat (length cs))))"

definition line_distance :: "feature \<Rightarrow> feature \<Rightarrow> jsnum res" where
  "line_distance a b =
     (case (cells a, cells b) of
        (Some (Num x # xs), Some (Num y # ys)) \<Rightarrow> Ret (Num \<bar>x - y\<bar>)
      | _ \<Rightarrow> Threw)"

definition line_polygon :: "coords \<Rightarrow> feature res" where
  "line_polygon cs =
     Ret \<lparr>properties = Some [], geometry = Some \<lparr>gtype = ''Polygon'', coordinates = cs\<rparr>\<rparr>"

definition line_turf :: turf where
  "line_turf =
     \<lparr>t_union = line_op (\<lambda>x y. remdups (x @ y)),
      t_intersect = line_op (\<lambda>x y. filter (\<lambda>c. c \<in> set y) x),
      t_difference = line_op (\<lambda>x y. filter (\<lambda>c. c \<notin> set y) x),
      t_bbox = line_bbox,
      t_centroid = line_centroid,
      t_area = line_area,
      t_distance = line_distance,
      t_polygon = line_polygon\<rparr>"

text \<open>A feature that covers the given cells and carries the given code.\<close>

definition zone :: "string \<Rightarrow> rat list \<Rightarrow> feature" where
  "zone code cs =
     \<lparr>properties = Some [(''postnummer'', JStr code)],
      geometry = Some \<lparr>gtype = ''Polygon'', coordinates = A (map (\<lambda>c. N (Num c)) cs)\<rparr>\<rparr>"

text \<open>A feature that covers the given cells and has no properties, as a gap has.\<close>

definition patch :: "rat list \<Rightarrow> feature" where
  "patch cs =
     \<lparr>properties = Some [],
      geometry = Some \<lparr>gtype = ''Polygon'', coordinates = A (map (\<lambda>c. N (Num c)) cs)\<rparr>\<rparr>"

text \<open>
  A conversion to evaluate with. It agrees with \<^verbatim>\<open>Number\<close> on the empty string, on strings
  of decimal digits, on the word \<^verbatim>\<open>Infinity\<close>, and on every string that is no numeric
  literal, which \<^verbatim>\<open>Number\<close> takes to \<^verbatim>\<open>NaN\<close>; it does not read the other numeric literals
  (signs, fractions, exponents, surrounding blanks).
\<close>

definition digit_value :: "char \<Rightarrow> nat option" where
  "digit_value c = map_of (zip ''0123456789'' [0 ..< 10]) c"

fun digits_value :: "nat \<Rightarrow> string \<Rightarrow> nat option" where
  "digits_value acc [] = Some acc"
| "digits_value acc (c # cs) =
     (case digit_value c of None \<Rightarrow> None | Some d \<Rightarrow> digits_value (10 * acc + d) cs)"

definition Number_of_digits :: "string \<Rightarrow> jsnum" where
  "Number_of_digits s =
     (if s = ''Infinity'' then PosInf
      else if s = [] then Num 0
      else (case digits_value 0 s of None \<Rightarrow> NaN | Some n \<Rightarrow> Num (of_nat n)))"

section \<open>Inputs for evaluation\<close>

text \<open>A feature without geometry: the library throws on it.\<close>

definition broken :: feature where
  "broken = \<lparr>properties = Some [], geometry = None\<rparr>"

section \<open>Auxiliary notions for the dissolver\<close>

text \<open>The shape of a feature the dissolver emits.\<close>

definition dissolved_feature :: "jsval \<Rightarrow> geometry \<Rightarrow> feature" where
  "dissolved_feature p g = \<lparr>properties = Some [(''postnummer'', p)], geometry = Some g\<rparr>"

text \<open>
  \<open>emitted ks ds\<close>: the list \<open>ds\<close> holds, in the order of the keys \<open>ks\<close>, at most one
  dissolved feature for each key.
\<close>

inductive emitted :: "jsval list \<Rightarrow> feature list \<Rightarrow> bool" where
  emitted_Nil: "emitted [] []"
| emitted_skip: "emitted ks ds \<Longrightarrow> emitted (k # ks) ds"
| emitted_keep: "emitted ks ds \<Longrightarrow> emitted (k # ks) (dissolved_feature k g # ds)"

section \<open>Auxiliary notions for the gap assigner\<close>

text \<open>The distance from a gap centre to a cached entry, when the library returns one.\<close>

definition distance_to :: "turf \<Rightarrow> feature \<Rightarrow> feature \<times> feature \<Rightarrow> jsnum" where
  "distance_to T gapCenter entry =
     (case t_distance T gapCenter (snd entry) of Threw \<Rightarrow> NaN | Ret d \<Rightarrow> d)"

text \<open>The addition the gap assigner pushes for a gap and the feature it chose.\<close>

definition addition :: "feature \<Rightarrow> feature \<Rightarrow> feature" where
  "addition chosen gapFeature =
     \<lparr>properties = Some (properties_or_empty chosen), geometry = geometry gapFeature\<rparr>"

text \<open>
  The distance from a gap centre to the centroid of a feature, computed with the library
  itself; \<^verbatim>\<open>NaN\<close> stands for a centroid or a distance that throws.
\<close>

definition centroid_distance :: "turf \<Rightarrow> feature \<Rightarrow> feature \<Rightarrow> jsnum" where
  "centroid_distance T gapCenter f =
     (case t_centroid T f of
        Threw \<Rightarrow> NaN
      | Ret c \<Rightarrow> (case t_distance T gapCenter c of Threw \<Rightarrow> NaN | Ret d \<Rightarrow> d))"

text \<open>
  The nearest candidate as the specification words it: the first feature, in the order of
  the features, whose centroid is at most as far from the gap centre as the centroid of
  every feature.
\<close>

definition nearest_feature :: "turf \<Rightarrow> feature \<Rightarrow> feature list \<Rightarrow> feature option" where
  "nearest_feature T gapCenter fs =
     find (\<lambda>f. list_all (\<lambda>x. js_le (centroid_distance T gapCenter f)
                                     (centroid_distance T gapCenter x)) fs) fs"

text \<open>
  The additions for one gap as the specification words them: none for a gap whose area
  exceeds the maximum, otherwise one that carries the properties of the nearest
  candidate, if there is a candidate.
\<close>

definition nearest_addition :: "turf \<Rightarrow> jsnum \<Rightarrow> feature list \<Rightarrow> feature \<Rightarrow> feature list" where
  "nearest_addition T gap_area_max fs gapFeature =
     (case t_area T gapFeature of
        Threw \<Rightarrow> []
      | Ret area \<Rightarrow>
          if js_gt area gap_area_max then []
          else
            (case t_centroid T gapFeature of
               Threw \<Rightarrow> []
             | Ret gapCenter \<Rightarrow>
                 (case nearest_feature T gapCenter fs of
                    None \<Rightarrow> []
                  | Some f \<Rightarrow> [addition f gapFeature])))"

section \<open>Auxiliary notions for the clipper and the run\<close>

text \<open>A point lies inside a box \<^verbatim>\<open>[minX, minY, maxX, maxY]\<close>.\<close>

fun inside :: "jsnum \<times> jsnum \<Rightarrow> bbox \<Rightarrow> bool" where
  "inside (x, y) (b0, b1, b2, b3) = (js_le b0 x \<and> js_le x b2 \<and> js_le b1 y \<and> js_le y b3)"

text \<open>The points a feature covers, in the geometry on a line.\<close>

definition line_region :: "feature \<Rightarrow> (jsnum \<times> jsnum) set" where
  "line_region f = (case cells f of None \<Rightarrow> {} | Some cs \<Rightarrow> (\<lambda>c. (c, Num 0)) ` set cs)"

text \<open>The codes in a file of the run; a file that was not written has none.\<close>

definition file_codes :: "doc option \<Rightarrow> jsval set" where
  "file_codes file = (case file of None \<Rightarrow> {} | Some d \<Rightarrow> codes (features_or_empty d))"

text \<open>A process with the given environment variables and files.\<close>

definition sys_of :: "(string \<times> string) list \<Rightarrow> (string \<times> doc) list \<Rightarrow> sys" where
  "sys_of vars files = \<lparr>env = map_of vars, Number = Number_of_digits, readJSON = map_of files\<rparr>"

section \<open>Properties of the mask unifier\<close>

lemma unionMask_loop_foldl:
  "unionMask_loop T acc fs = foldl (union_or_keep T) acc fs"
  by (induction fs arbitrary: acc)
    (simp_all add: union_or_keep_def split: option.splits res.splits)

text \<open>
  A union that returns \<^verbatim>\<open>null\<close> empties the accumulator, and the next feature becomes the
  accumulator without a union: the test \<^verbatim>\<open>!merged\<close> of the loop.
\<close>

lemma unionMask_reseed:
  "t_union T a b = Ret None \<Longrightarrow> unionMask T (a # b # c # fs) = unionMask T (c # fs)"
  by (simp add: unionMask_def)

lemma union_or_keep_Some:
  "union_or_keep T (Some m) g = (case t_union T m g of Threw \<Rightarrow> Some m | Ret u \<Rightarrow> u)"
  by (simp add: union_or_keep_def)

text \<open>
  C6. The mask unifier is a left fold over the features after the first, started with the
  first feature as accumulator: for the empty list it returns \<^verbatim>\<open>null\<close>; at each later
  feature a union that succeeds replaces the accumulator by its result, and a union that
  throws leaves the accumulator as it was.
\<close>

theorem unionMask_left_fold:
  "unionMask T [] = None
   \<and> unionMask T (f # fs) = foldl (union_or_keep T) (Some f) fs
   \<and> (\<forall>m g u. t_union T m g = Ret u \<longrightarrow> union_or_keep T (Some m) g = u)
   \<and> (\<forall>m g. t_union T m g = Threw \<longrightarrow> union_or_keep T (Some m) g = Some m)"
  by (simp add: unionMask_def unionMask_loop_foldl union_or_keep_def)

theorem unionMask_left_fold_witness:
  "unionMask line_turf [] = None
   \<and> unionMask line_turf [zone ''a'' [1], broken, zone ''b'' [2]]
       = foldl (union_or_keep line_turf) (Some (zone ''a'' [1])) [broken, zone ''b'' [2]]
   \<and> t_union line_turf (zone ''a'' [1]) broken = Threw
   \<and> union_or_keep line_turf (Some (zone ''a'' [1])) broken = Some (zone ''a'' [1])
   \<and> t_union line_turf (zone ''a'' [1]) (zone ''b'' [2]) = Ret (cells_feature [Num 1, Num 2])
   \<and> union_or_keep line_turf (Some (zone ''a'' [1])) (zone ''b'' [2]) = cells_feature [Num 1, Num 2]
   \<and> unionMask line_turf [zone ''a'' [1], broken, zone ''b'' [2]] = cells_feature [Num 1, Num 2]"
proof -
  have threw: "t_union line_turf (zone ''a'' [1]) broken = Threw"
    by code_simp
  have ret: "t_union line_turf (zone ''a'' [1]) (zone ''b'' [2]) = Ret (cells_feature [Num 1, Num 2])"
    by code_simp
  have res: "unionMask line_turf [zone ''a'' [1], broken, zone ''b'' [2]] = cells_feature [Num 1, Num 2]"
    by code_simp
  note fold = unionMask_left_fold [of line_turf "zone ''a'' [1]" "[broken, zone ''b'' [2]]"]
  from fold threw ret res show ?thesis
    by blast
qed

text \<open>
  C9. For a list of one feature the mask unifier returns that feature as it is, whatever
  the library does: no union is attempted and nothing is checked, so a first feature
  that is invalid or degenerate is not skipped.
\<close>

theorem unionMask_single: "unionMask T [f] = Some f"
  by (simp add: unionMask_def)

theorem unionMask_single_witness: "unionMask line_turf [broken] = Some broken"
  using unionMask_single [of line_turf broken] .

section \<open>Properties of the dissolver\<close>

lemma postnummer_dissolved [simp]: "postnummer (dissolved_feature p g) = Some p"
  by (simp add: postnummer_def dissolved_feature_def)

lemma dissolve_group_cases:
  "dissolve_group T kg = [] \<or> (\<exists>g. dissolve_group T kg = [dissolved_feature (fst kg) g])"
  by (simp add: dissolve_group_def dissolved_feature_def split: option.splits)

lemma dissolve_group_single:
  "dissolve_group T (p, [dissolved_feature p g]) = [dissolved_feature p g]"
  by (simp add: dissolve_group_def dissolved_feature_def)

lemma group_push_keys:
  "map fst (group_push p f grouped) =
     (if p \<in> set (map fst grouped) then map fst grouped else map fst grouped @ [p])"
  by (induction grouped) auto

lemma group_push_fresh:
  "p \<notin> set (map fst grouped) \<Longrightarrow> group_push p f grouped = grouped @ [(p, [f])]"
  by (induction grouped) auto

lemma group_push_distinct:
  "distinct (map fst grouped) \<Longrightarrow> distinct (map fst (group_push p f grouped))"
  by (simp add: group_push_keys)

lemma group_push_truthy:
  "truthy p \<Longrightarrow> \<forall>k \<in> set (map fst grouped). truthy k \<Longrightarrow>
     \<forall>k \<in> set (map fst (group_push p f grouped)). truthy k"
  by (simp add: group_push_keys)

lemma group_loop_distinct:
  "distinct (map fst grouped) \<Longrightarrow> distinct (map fst (group_loop grouped fs))"
  by (induction fs arbitrary: grouped)
    (auto simp: group_push_distinct split: option.splits)

lemma group_loop_truthy:
  "\<forall>k \<in> set (map fst grouped). truthy k \<Longrightarrow>
     \<forall>k \<in> set (map fst (group_loop grouped fs)). truthy k"
proof (induction fs arbitrary: grouped)
  case Nil
  then show ?case by simp
next
  case (Cons f fs)
  show ?case
  proof (cases "postnummer f")
    case None
    with Cons show ?thesis by simp
  next
    case (Some p)
    show ?thesis
    proof (cases "truthy p")
      case True
      with Some Cons.prems have "\<forall>k \<in> set (map fst (group_push p f grouped)). truthy k"
        using group_push_truthy by blast
      with Cons.IH [of "group_push p f grouped"] Some True show ?thesis by simp
    next
      case False
      with Some Cons show ?thesis by simp
    qed
  qed
qed

lemma emitted_groups: "emitted (map fst groups) (concat (map (dissolve_group T) groups))"
proof (induction groups)
  case Nil
  show ?case by (simp add: emitted_Nil)
next
  case (Cons kg groups)
  from dissolve_group_cases [of T kg] Cons show ?case
    by (auto intro: emitted_skip emitted_keep)
qed

lemma emitted_keys: "emitted ks ds \<Longrightarrow> set (map postnummer ds) \<subseteq> Some ` set ks"
  by (induction rule: emitted.induct) auto

lemma emitted_distinct: "emitted ks ds \<Longrightarrow> distinct ks \<Longrightarrow> distinct (map postnummer ds)"
proof (induction rule: emitted.induct)
  case emitted_Nil
  show ?case by simp
next
  case (emitted_skip ks ds k)
  then show ?case by simp
next
  case (emitted_keep ks ds k g)
  then have "Some k \<notin> set (map postnummer ds)"
    using emitted_keys [of ks ds] by auto
  with emitted_keep show ?case by simp
qed

lemma group_loop_emitted:
  "emitted ks ds \<Longrightarrow> distinct ks \<Longrightarrow> \<forall>k \<in> set ks. truthy k \<Longrightarrow>
     set ks \<inter> set (map fst grouped) = {} \<Longrightarrow>
     group_loop grouped ds = grouped @ map (\<lambda>d. (the (postnummer d), [d])) ds"
proof (induction arbitrary: grouped rule: emitted.induct)
  case emitted_Nil
  show ?case by simp
next
  case (emitted_skip ks ds k)
  then show ?case by simp
next
  case (emitted_keep ks ds k g)
  have fresh: "k \<notin> set (map fst grouped)"
    using emitted_keep.prems(3) by auto
  have "set ks \<inter> set (map fst (grouped @ [(k, [dissolved_feature k g])])) = {}"
    using emitted_keep.prems by auto
  with emitted_keep have
    "group_loop (grouped @ [(k, [dissolved_feature k g])]) ds =
       (grouped @ [(k, [dissolved_feature k g])]) @ map (\<lambda>d. (the (postnummer d), [d])) ds"
    by simp
  with fresh emitted_keep.prems(2) show ?case
    by (simp add: group_push_fresh)
qed

lemma emitted_redissolve:
  "emitted ks ds \<Longrightarrow>
     concat (map (dissolve_group T) (map (\<lambda>d. (the (postnummer d), [d])) ds)) = ds"
  by (induction rule: emitted.induct) (simp_all add: dissolve_group_single)

lemma dissolve_emitted:
  "emitted (map fst (group_loop [] fs)) (dissolveByPostnummer T fs)"
  unfolding dissolveByPostnummer_def by (rule emitted_groups)

lemma dissolve_regroup:
  "group_loop [] (dissolveByPostnummer T fs)
     = map (\<lambda>d. (the (postnummer d), [d])) (dissolveByPostnummer T fs)"
proof -
  have dist: "distinct (map fst (group_loop [] fs))"
    by (rule group_loop_distinct) simp
  have tr: "\<forall>k \<in> set (map fst (group_loop [] fs)). truthy k"
    by (rule group_loop_truthy) simp
  have "group_loop [] (dissolveByPostnummer T fs)
      = [] @ map (\<lambda>d. (the (postnummer d), [d])) (dissolveByPostnummer T fs)"
    by (rule group_loop_emitted [OF dissolve_emitted dist tr]) simp
  then show ?thesis by simp
qed

lemma dissolve_distinct: "distinct (map postnummer (dissolveByPostnummer T fs))"
  by (rule emitted_distinct [OF dissolve_emitted]) (rule group_loop_distinct, simp)

text \<open>
  C2. The dissolver is idempotent: dissolving the features of its own output gives the
  same features again, with the same codes and the same geometries in the same order.
  In the second pass every group holds exactly one feature, which the fold returns as
  it is.
\<close>

theorem dissolve_idempotent:
  "dissolveByPostnummer T (dissolveByPostnummer T fs) = dissolveByPostnummer T fs
   \<and> map snd (group_loop [] (dissolveByPostnummer T fs))
       = map (\<lambda>d. [d]) (dissolveByPostnummer T fs)"
proof -
  let ?ds = "dissolveByPostnummer T fs"
  have "dissolveByPostnummer T ?ds
      = concat (map (dissolve_group T) (map (\<lambda>d. (the (postnummer d), [d])) ?ds))"
    by (simp add: dissolveByPostnummer_def [of T ?ds] dissolve_regroup)
  also have "\<dots> = ?ds"
    by (rule emitted_redissolve [OF dissolve_emitted])
  finally have "dissolveByPostnummer T ?ds = ?ds" .
  moreover have "map snd (group_loop [] ?ds) = map (\<lambda>d. [d]) ?ds"
    by (simp add: dissolve_regroup comp_def)
  ultimately show ?thesis by simp
qed

theorem dissolve_idempotent_witness:
  "dissolveByPostnummer line_turf
      [zone ''0150'' [1, 2], zone ''0151'' [5], broken, zone ''0150'' [2, 3]]
     = [dissolved_feature (JStr ''0150'')
          \<lparr>gtype = ''MultiPolygon'', coordinates = A (map cell_polygon [Num 1, Num 2, Num 3])\<rparr>,
        dissolved_feature (JStr ''0151'')
          \<lparr>gtype = ''Polygon'', coordinates = A [N (Num 5)]\<rparr>]
   \<and> dissolveByPostnummer line_turf (dissolveByPostnummer line_turf
        [zone ''0150'' [1, 2], zone ''0151'' [5], broken, zone ''0150'' [2, 3]])
     = dissolveByPostnummer line_turf
        [zone ''0150'' [1, 2], zone ''0151'' [5], broken, zone ''0150'' [2, 3]]"
proof -
  have "dissolveByPostnummer line_turf
      [zone ''0150'' [1, 2], zone ''0151'' [5], broken, zone ''0150'' [2, 3]]
     = [dissolved_feature (JStr ''0150'')
          \<lparr>gtype = ''MultiPolygon'', coordinates = A (map cell_polygon [Num 1, Num 2, Num 3])\<rparr>,
        dissolved_feature (JStr ''0151'')
          \<lparr>gtype = ''Polygon'', coordinates = A [N (Num 5)]\<rparr>]"
    by code_simp
  then show ?thesis
    using dissolve_idempotent [of line_turf
        "[zone ''0150'' [1, 2], zone ''0151'' [5], broken, zone ''0150'' [2, 3]]"]
    by blast
qed

section \<open>Properties of the label builder\<close>

lemma postnummer_label:
  "postnummer \<lparr>properties = Some (case postnummer f of None \<Rightarrow> [] | Some p \<Rightarrow> [(''postnummer'', p)]),
               geometry = g\<rparr> = postnummer f"
  by (cases "postnummer f") (simp_all add: postnummer_def)

lemma label_feature_codes:
  "map postnummer (label_feature T d) = (if t_centroid T d = Threw then [] else [postnummer d])"
  by (cases "t_centroid T d") (simp_all add: label_feature_def postnummer_label)

lemma buildLabelPoints_codes:
  "map postnummer (buildLabelPoints T (FeatureCollection ds))
     = map postnummer (filter (\<lambda>d. t_centroid T d \<noteq> Threw) ds)"
  by (induction ds)
    (simp_all add: buildLabelPoints_def features_or_empty_def label_feature_codes)

lemma count_in_distinct:
  "distinct xs \<Longrightarrow> length (filter (\<lambda>x. x = c) xs) = (if c \<in> set xs then 1 else 0)"
  by (induction xs) auto

lemma labels_of_distinct:
  assumes dist: "distinct (map postnummer ds)" and d: "d \<in> set ds"
  shows "length (filter (\<lambda>l. postnummer l = postnummer d) (buildLabelPoints T (FeatureCollection ds)))
           = (if t_centroid T d = Threw then 0 else 1)"
proof -
  let ?ok = "\<lambda>d. t_centroid T d \<noteq> Threw"
  let ?ls = "buildLabelPoints T (FeatureCollection ds)"
  have inj: "inj_on postnummer (set ds)" and dds: "distinct ds"
    using dist by (simp_all add: distinct_map)
  have "length (filter (\<lambda>l. postnummer l = postnummer d) ?ls)
      = length (filter (\<lambda>c. c = postnummer d) (map postnummer ?ls))"
    by (simp add: filter_map comp_def)
  also have "\<dots> = length (filter (\<lambda>c. c = postnummer d) (map postnummer (filter ?ok ds)))"
    by (simp add: buildLabelPoints_codes)
  also have "\<dots> = (if postnummer d \<in> set (map postnummer (filter ?ok ds)) then 1 else 0)"
  proof (rule count_in_distinct)
    show "distinct (map postnummer (filter ?ok ds))"
      using dist by (rule distinct_map_filter)
  qed
  also have "postnummer d \<in> set (map postnummer (filter ?ok ds)) \<longleftrightarrow> ?ok d"
    using inj d by (auto dest: inj_onD)
  finally show ?thesis by simp
qed

text \<open>
  C3, as the code has it. The label builder emits a label for a dissolved feature exactly
  when the centroid of that feature can be computed: every label carries the code of a
  dissolved feature whose centroid did not throw, a dissolved feature whose centroid did
  not throw has exactly one label with its code, and one whose centroid throws has none.
\<close>

theorem labels_match_centroids:
  "(\<forall>l \<in> set (buildLabelPoints T (FeatureCollection (dissolveByPostnummer T fs))).
      \<exists>d \<in> set (dissolveByPostnummer T fs). postnummer l = postnummer d \<and> t_centroid T d \<noteq> Threw)
   \<and> (\<forall>d \<in> set (dissolveByPostnummer T fs).
        length (filter (\<lambda>l. postnummer l = postnummer d)
                  (buildLabelPoints T (FeatureCollection (dissolveByPostnummer T fs))))
          = (if t_centroid T d = Threw then 0 else 1))"
proof -
  let ?ds = "dissolveByPostnummer T fs"
  let ?ls = "buildLabelPoints T (FeatureCollection ?ds)"
  have "\<exists>d \<in> set ?ds. postnummer l = postnummer d \<and> t_centroid T d \<noteq> Threw" if "l \<in> set ?ls" for l
  proof -
    from that have "postnummer l \<in> set (map postnummer ?ls)" by simp
    then have "postnummer l \<in> set (map postnummer (filter (\<lambda>d. t_centroid T d \<noteq> Threw) ?ds))"
      by (simp only: buildLabelPoints_codes)
    then show ?thesis by auto
  qed
  moreover have "length (filter (\<lambda>l. postnummer l = postnummer d) ?ls)
      = (if t_centroid T d = Threw then 0 else 1)" if "d \<in> set ?ds" for d
    using dissolve_distinct that by (rule labels_of_distinct)
  ultimately show ?thesis by blast
qed

theorem labels_match_centroids_witness:
  "dissolveByPostnummer line_turf [zone ''0150'' [], zone ''0151'' [4]] = [zone ''0150'' [], zone ''0151'' [4]]
   \<and> t_centroid line_turf (zone ''0150'' []) = Threw
   \<and> t_centroid line_turf (zone ''0151'' [4]) \<noteq> Threw
   \<and> length (filter (\<lambda>l. postnummer l = postnummer (zone ''0150'' []))
        (buildLabelPoints line_turf (FeatureCollection (dissolveByPostnummer line_turf [zone ''0150'' [], zone ''0151'' [4]])))) = 0
   \<and> length (filter (\<lambda>l. postnummer l = postnummer (zone ''0151'' [4]))
        (buildLabelPoints line_turf (FeatureCollection (dissolveByPostnummer line_turf [zone ''0150'' [], zone ''0151'' [4]])))) = 1"
proof -
  have ds: "dissolveByPostnummer line_turf [zone ''0150'' [], zone ''0151'' [4]] = [zone ''0150'' [], zone ''0151'' [4]]"
    by code_simp
  have c0: "t_centroid line_turf (zone ''0150'' []) = Threw"
    by code_simp
  have c1: "t_centroid line_turf (zone ''0151'' [4]) \<noteq> Threw"
    by code_simp
  have in0: "zone ''0150'' [] \<in> set (dissolveByPostnummer line_turf [zone ''0150'' [], zone ''0151'' [4]])"
    and in1: "zone ''0151'' [4] \<in> set (dissolveByPostnummer line_turf [zone ''0150'' [], zone ''0151'' [4]])"
    unfolding ds by simp_all
  note m = labels_match_centroids [of line_turf "[zone ''0150'' [], zone ''0151'' [4]]", THEN conjunct2]
  from m in0 c0 have r0:
    "length (filter (\<lambda>l. postnummer l = postnummer (zone ''0150'' []))
        (buildLabelPoints line_turf (FeatureCollection (dissolveByPostnummer line_turf [zone ''0150'' [], zone ''0151'' [4]])))) = 0"
    by (auto dest: bspec simp only: if_True refl)
  from m in1 c1 have r1:
    "length (filter (\<lambda>l. postnummer l = postnummer (zone ''0151'' [4]))
        (buildLabelPoints line_turf (FeatureCollection (dissolveByPostnummer line_turf [zone ''0150'' [], zone ''0151'' [4]])))) = 1"
    by (auto dest: bspec simp only: if_False refl)
  from ds c0 c1 r0 r1 show ?thesis
    by (intro conjI)
qed

text \<open>
  C3, as the specification states it, fails: a dissolved feature whose polygon has no
  coordinates has a code and no label, because its centroid throws and the label builder
  skips it.
\<close>

theorem labels_not_bijective:
  "\<not> ((\<forall>l \<in> set (buildLabelPoints line_turf (FeatureCollection (dissolveByPostnummer line_turf [zone ''0150'' []]))).
         \<exists>d \<in> set (dissolveByPostnummer line_turf [zone ''0150'' []]). postnummer l = postnummer d)
      \<and> (\<forall>d \<in> set (dissolveByPostnummer line_turf [zone ''0150'' []]).
           length (filter (\<lambda>l. postnummer l = postnummer d)
             (buildLabelPoints line_turf (FeatureCollection (dissolveByPostnummer line_turf [zone ''0150'' []])))) = 1))"
  by code_simp

section \<open>Properties of the comparisons\<close>

lemma js_lt_trans: "js_lt a b \<Longrightarrow> js_lt b c \<Longrightarrow> js_lt a c"
  by (cases a; cases b; cases c) simp_all

lemma js_lt_le_trans: "js_lt a b \<Longrightarrow> js_le b c \<Longrightarrow> js_lt a c"
  by (cases a; cases b; cases c) simp_all

lemma js_le_trans: "js_le a b \<Longrightarrow> js_le b c \<Longrightarrow> js_le a c"
  by (cases a; cases b; cases c) simp_all

lemma js_lt_imp_le: "js_lt a b \<Longrightarrow> js_le a b"
  by (cases a; cases b) simp_all

lemma js_not_lt: "a \<noteq> NaN \<Longrightarrow> b \<noteq> NaN \<Longrightarrow> \<not> js_lt a b \<Longrightarrow> js_le b a"
  by (cases a; cases b) simp_all

lemma js_le_refl: "a \<noteq> NaN \<Longrightarrow> js_le a a"
  by (cases a) simp_all

lemma js_gt_NaN: "\<not> js_gt a NaN"
  by (cases a) (simp_all add: js_gt_def)

lemma js_gt_PosInf: "\<not> js_gt a PosInf"
  by (cases a) (simp_all add: js_gt_def)

section \<open>Properties of the gap assigner\<close>

lemma nearest_loop_from_best:
  assumes "\<forall>e \<in> set rest. \<exists>d. t_distance T gc (snd e) = Ret d \<and> d \<noteq> NaN"
    and "bd \<noteq> NaN"
  shows "(nearest_loop T gc (Some (bd, bf)) rest = Inr (Some (bd, bf))
            \<and> (\<forall>x \<in> set rest. js_le bd (distance_to T gc x)))
         \<or> (\<exists>pre e post. rest = pre @ e # post
              \<and> nearest_loop T gc (Some (bd, bf)) rest = Inr (Some (distance_to T gc e, fst e))
              \<and> js_lt (distance_to T gc e) bd
              \<and> (\<forall>x \<in> set pre. js_lt (distance_to T gc e) (distance_to T gc x))
              \<and> (\<forall>x \<in> set post. js_le (distance_to T gc e) (distance_to T gc x)))"
  using assms
proof (induction rest arbitrary: bd bf)
  case Nil
  then show ?case by simp
next
  case (Cons e rest)
  from Cons.prems obtain de where de: "t_distance T gc (snd e) = Ret de" "de \<noteq> NaN"
    by auto
  then have dist_e: "distance_to T gc e = de"
    by (simp add: distance_to_def)
  from Cons.prems have rest: "\<forall>e \<in> set rest. \<exists>d. t_distance T gc (snd e) = Ret d \<and> d \<noteq> NaN"
    by simp
  show ?case
  proof (cases "js_lt de bd")
    case True
    then have step: "nearest_loop T gc (Some (bd, bf)) (e # rest)
        = nearest_loop T gc (Some (de, fst e)) rest"
      using de by simp
    from Cons.IH [OF rest de(2), of "fst e"] show ?thesis
    proof (elim disjE conjE exE)
      assume same: "nearest_loop T gc (Some (de, fst e)) rest = Inr (Some (de, fst e))"
        and le: "\<forall>x \<in> set rest. js_le de (distance_to T gc x)"
      have "e # rest = [] @ e # rest" by simp
      with same le step True dist_e show ?thesis
        by (intro disjI2 exI [of _ "[]"] exI [of _ e] exI [of _ rest]) simp
    next
      fix pre e' post
      assume split: "rest = pre @ e' # post"
        and res: "nearest_loop T gc (Some (de, fst e)) rest = Inr (Some (distance_to T gc e', fst e'))"
        and lt: "js_lt (distance_to T gc e') de"
        and pre: "\<forall>x \<in> set pre. js_lt (distance_to T gc e') (distance_to T gc x)"
        and post: "\<forall>x \<in> set post. js_le (distance_to T gc e') (distance_to T gc x)"
      have "js_lt (distance_to T gc e') bd"
        using lt True by (rule js_lt_trans)
      with split res lt pre post step dist_e show ?thesis
        by (intro disjI2 exI [of _ "e # pre"] exI [of _ e'] exI [of _ post]) simp
    qed
  next
    case False
    then have step: "nearest_loop T gc (Some (bd, bf)) (e # rest)
        = nearest_loop T gc (Some (bd, bf)) rest"
      using de by simp
    have bd_le: "js_le bd de"
      using de(2) Cons.prems(2) False by (rule js_not_lt)
    from Cons.IH [OF rest Cons.prems(2), of bf] show ?thesis
    proof (elim disjE conjE exE)
      assume same: "nearest_loop T gc (Some (bd, bf)) rest = Inr (Some (bd, bf))"
        and le: "\<forall>x \<in> set rest. js_le bd (distance_to T gc x)"
      with step bd_le dist_e show ?thesis
        by simp
    next
      fix pre e' post
      assume split: "rest = pre @ e' # post"
        and res: "nearest_loop T gc (Some (bd, bf)) rest = Inr (Some (distance_to T gc e', fst e'))"
        and lt: "js_lt (distance_to T gc e') bd"
        and pre: "\<forall>x \<in> set pre. js_lt (distance_to T gc e') (distance_to T gc x)"
        and post: "\<forall>x \<in> set post. js_le (distance_to T gc e') (distance_to T gc x)"
      have "js_lt (distance_to T gc e') de"
        using lt bd_le by (rule js_lt_le_trans)
      with split res lt pre post step dist_e show ?thesis
        by (intro disjI2 exI [of _ "e # pre"] exI [of _ e'] exI [of _ post]) simp
    qed
  qed
qed

lemma nearest_loop_first_minimum:
  assumes "\<forall>e \<in> set cache. \<exists>d. t_distance T gc (snd e) = Ret d \<and> d \<noteq> NaN"
    and "cache \<noteq> []"
  shows "\<exists>pre e post. cache = pre @ e # post
           \<and> nearest_loop T gc None cache = Inr (Some (distance_to T gc e, fst e))
           \<and> (\<forall>x \<in> set pre. js_lt (distance_to T gc e) (distance_to T gc x))
           \<and> (\<forall>x \<in> set post. js_le (distance_to T gc e) (distance_to T gc x))"
proof -
  from assms(2) obtain e0 rest where cache: "cache = e0 # rest"
    by (cases cache) auto
  from assms(1) cache obtain d0 where d0: "t_distance T gc (snd e0) = Ret d0" "d0 \<noteq> NaN"
    by auto
  then have dist0: "distance_to T gc e0 = d0"
    by (simp add: distance_to_def)
  from assms(1) cache have rest: "\<forall>e \<in> set rest. \<exists>d. t_distance T gc (snd e) = Ret d \<and> d \<noteq> NaN"
    by simp
  have step: "nearest_loop T gc None cache = nearest_loop T gc (Some (d0, fst e0)) rest"
    using cache d0 by simp
  from nearest_loop_from_best [OF rest d0(2), of "fst e0"] show ?thesis
  proof (elim disjE conjE exE)
    assume same: "nearest_loop T gc (Some (d0, fst e0)) rest = Inr (Some (d0, fst e0))"
      and le: "\<forall>x \<in> set rest. js_le d0 (distance_to T gc x)"
    with step cache dist0 show ?thesis
      by (intro exI [of _ "[]"] exI [of _ e0] exI [of _ rest]) simp
  next
    fix pre e' post
    assume split: "rest = pre @ e' # post"
      and res: "nearest_loop T gc (Some (d0, fst e0)) rest = Inr (Some (distance_to T gc e', fst e'))"
      and lt: "js_lt (distance_to T gc e') d0"
      and pre: "\<forall>x \<in> set pre. js_lt (distance_to T gc e') (distance_to T gc x)"
      and post: "\<forall>x \<in> set post. js_le (distance_to T gc e') (distance_to T gc x)"
    with step cache dist0 show ?thesis
      by (intro exI [of _ "e0 # pre"] exI [of _ e'] exI [of _ post]) simp
  qed
qed

lemma assign_gap_within_max:
  assumes "t_area T gap = Ret area" "\<not> js_gt area gap_area_max" "t_centroid T gap = Ret gc"
  shows "assign_gap T gap_area_max cache gap =
           (case nearest_loop T gc None cache of
              Inl e \<Rightarrow> Inl e
            | Inr None \<Rightarrow> Inr []
            | Inr (Some best) \<Rightarrow> Inr [addition (snd best) gap])"
  using assms by (simp add: assign_gap_def addition_def split: sum.splits option.splits)

lemma assign_gap_no_candidates: "assign_gap T gap_area_max [] gap = Inr ys \<Longrightarrow> ys = []"
  by (auto simp: assign_gap_def split: res.splits if_splits)

lemma for_each_all_empty:
  "(\<And>x ys. body x = Inr ys \<Longrightarrow> ys = []) \<Longrightarrow> for_each body xs = Inr zs \<Longrightarrow> zs = []"
proof (induction xs arbitrary: zs)
  case Nil
  then show ?case by simp
next
  case (Cons x xs)
  from Cons.prems(2) obtain ys zs' where parts: "body x = Inr ys" "for_each body xs = Inr zs'" "zs = ys @ zs'"
    by (auto split: sum.splits)
  from Cons.prems(1) parts(1) have "ys = []" by blast
  moreover from Cons.IH [OF Cons.prems(1) parts(2)] have "zs' = []" .
  ultimately show ?case using parts(3) by simp
qed

lemma assign_no_candidates:
  "assignGapsToNearest T gap_area_max (FeatureCollection []) gaps = Inr additions \<Longrightarrow> additions = []"
proof (cases "gaps = []")
  case True
  assume "assignGapsToNearest T gap_area_max (FeatureCollection []) gaps = Inr additions"
  with True show ?thesis by (simp add: assignGapsToNearest_def)
next
  case False
  assume "assignGapsToNearest T gap_area_max (FeatureCollection []) gaps = Inr additions"
  with False have "for_each (assign_gap T gap_area_max []) gaps = Inr additions"
    by (simp add: assignGapsToNearest_def)
  then show ?thesis
    by (rule for_each_all_empty [rotated]) (rule assign_gap_no_candidates)
qed

lemma js_lt_not_le: "js_lt a b \<Longrightarrow> \<not> js_le b a"
  by (cases a; cases b) simp_all

lemma find_first:
  "\<forall>x \<in> set pre. \<not> P x \<Longrightarrow> P f \<Longrightarrow> find P (pre @ f # post) = Some f"
  by (induction pre) simp_all

lemma map_res_centroid_cache:
  "\<forall>f \<in> set fs. t_centroid T f \<noteq> Threw \<Longrightarrow>
     \<exists>cache. map_res (centroid_entry T) fs = Inr cache \<and> map fst cache = fs
        \<and> (\<forall>e \<in> set cache. t_centroid T (fst e) = Ret (snd e))"
proof (induction fs)
  case Nil
  then show ?case by simp
next
  case (Cons f fs)
  then obtain cache where cache: "map_res (centroid_entry T) fs = Inr cache" "map fst cache = fs"
    "\<forall>e \<in> set cache. t_centroid T (fst e) = Ret (snd e)"
    by auto
  from Cons.prems obtain c where c: "t_centroid T f = Ret c"
    by (cases "t_centroid T f") auto
  with cache have "map_res (centroid_entry T) (f # fs) = Inr ((f, c) # cache)"
    by (simp add: centroid_entry_def)
  with cache c show ?case
    by auto
qed

lemma distance_to_centroid:
  "t_centroid T (fst e) = Ret (snd e) \<Longrightarrow> distance_to T gc e = centroid_distance T gc (fst e)"
  by (simp add: distance_to_def centroid_distance_def)

lemma centroid_distance_number:
  "centroid_distance T gc f \<noteq> NaN \<Longrightarrow> t_centroid T f = Ret c \<Longrightarrow>
     \<exists>d. t_distance T gc c = Ret d \<and> d \<noteq> NaN"
  by (cases "t_distance T gc c") (simp_all add: centroid_distance_def)

lemma centroid_distance_centroid:
  "centroid_distance T gc f \<noteq> NaN \<Longrightarrow> t_centroid T f \<noteq> Threw"
  by (auto simp: centroid_distance_def)

text \<open>The scan over a cache built from the features returns the nearest candidate.\<close>

lemma nearest_loop_of_features:
  assumes fst: "map fst cache = fs"
    and snd: "\<forall>e \<in> set cache. t_centroid T (fst e) = Ret (snd e)"
    and num: "\<forall>f \<in> set fs. centroid_distance T gc f \<noteq> NaN"
    and ne: "fs \<noteq> []"
  shows "\<exists>pre f post. fs = pre @ f # post
           \<and> nearest_feature T gc fs = Some f
           \<and> nearest_loop T gc None cache = Inr (Some (centroid_distance T gc f, f))
           \<and> (\<forall>x \<in> set pre. js_lt (centroid_distance T gc f) (centroid_distance T gc x))
           \<and> (\<forall>x \<in> set post. js_le (centroid_distance T gc f) (centroid_distance T gc x))"
proof -
  have in_fs: "fst e \<in> set fs" if "e \<in> set cache" for e
    using that fst by force
  have dist: "distance_to T gc e = centroid_distance T gc (fst e)" if "e \<in> set cache" for e
    using that snd by (simp add: distance_to_centroid)
  have dists: "\<forall>e \<in> set cache. \<exists>d. t_distance T gc (snd e) = Ret d \<and> d \<noteq> NaN"
  proof
    fix e
    assume e: "e \<in> set cache"
    with num in_fs have "centroid_distance T gc (fst e) \<noteq> NaN"
      by blast
    moreover from e snd have "t_centroid T (fst e) = Ret (snd e)"
      by blast
    ultimately show "\<exists>d. t_distance T gc (snd e) = Ret d \<and> d \<noteq> NaN"
      by (rule centroid_distance_number)
  qed
  from ne fst have "cache \<noteq> []"
    by auto
  with dists obtain cpre e cpost where found: "cache = cpre @ e # cpost"
    "nearest_loop T gc None cache = Inr (Some (distance_to T gc e, fst e))"
    "\<forall>x \<in> set cpre. js_lt (distance_to T gc e) (distance_to T gc x)"
    "\<forall>x \<in> set cpost. js_le (distance_to T gc e) (distance_to T gc x)"
    using nearest_loop_first_minimum by blast
  let ?f = "fst e"
  let ?cd = "centroid_distance T gc"
  from found(1) have e_in: "e \<in> set cache" and pre_in: "set cpre \<subseteq> set cache"
    and post_in: "set cpost \<subseteq> set cache"
    by auto
  have split: "fs = map fst cpre @ ?f # map fst cpost"
    using fst found(1) by auto
  have pre: "\<forall>x \<in> set (map fst cpre). js_lt (?cd ?f) (?cd x)"
  proof
    fix x
    assume "x \<in> set (map fst cpre)"
    then obtain e' where e': "e' \<in> set cpre" "x = fst e'"
      by auto
    with found(3) have "js_lt (distance_to T gc e) (distance_to T gc e')"
      by blast
    moreover from e'(1) pre_in have "e' \<in> set cache"
      by blast
    ultimately show "js_lt (?cd ?f) (?cd x)"
      using dist [OF e_in] dist [of e'] e'(2) by simp
  qed
  have post: "\<forall>x \<in> set (map fst cpost). js_le (?cd ?f) (?cd x)"
  proof
    fix x
    assume "x \<in> set (map fst cpost)"
    then obtain e' where e': "e' \<in> set cpost" "x = fst e'"
      by auto
    with found(4) have "js_le (distance_to T gc e) (distance_to T gc e')"
      by blast
    moreover from e'(1) post_in have "e' \<in> set cache"
      by blast
    ultimately show "js_le (?cd ?f) (?cd x)"
      using dist [OF e_in] dist [of e'] e'(2) by simp
  qed
  have self: "js_le (?cd ?f) (?cd ?f)"
    using num in_fs [OF e_in] by (intro js_le_refl) blast
  have least: "list_all (\<lambda>x. js_le (?cd ?f) (?cd x)) fs"
    unfolding split using pre post self
    by (auto simp: list_all_iff intro: js_lt_imp_le)
  have earlier: "\<forall>x \<in> set (map fst cpre). \<not> list_all (\<lambda>y. js_le (?cd x) (?cd y)) fs"
  proof
    fix x
    assume "x \<in> set (map fst cpre)"
    with pre have "js_lt (?cd ?f) (?cd x)"
      by blast
    then have "\<not> js_le (?cd x) (?cd ?f)"
      by (rule js_lt_not_le)
    moreover have "?f \<in> set fs"
      by (rule in_fs [OF e_in])
    ultimately show "\<not> list_all (\<lambda>y. js_le (?cd x) (?cd y)) fs"
      by (auto simp: list_all_iff)
  qed
  have "nearest_feature T gc fs = Some ?f"
    unfolding nearest_feature_def
    by (subst (2) split) (rule find_first [OF earlier least])
  moreover have "nearest_loop T gc None cache = Inr (Some (?cd ?f, ?f))"
    using found(2) dist [OF e_in] by simp
  ultimately show ?thesis
    using split pre post by blast
qed

lemma nearest_feature_first_minimum:
  assumes "\<forall>f \<in> set fs. centroid_distance T gc f \<noteq> NaN" and "fs \<noteq> []"
  shows "\<exists>pre f post. fs = pre @ f # post
           \<and> nearest_feature T gc fs = Some f
           \<and> (\<forall>x \<in> set pre. js_lt (centroid_distance T gc f) (centroid_distance T gc x))
           \<and> (\<forall>x \<in> set post. js_le (centroid_distance T gc f) (centroid_distance T gc x))"
proof -
  from assms(1) have "\<forall>f \<in> set fs. t_centroid T f \<noteq> Threw"
    by (blast dest: centroid_distance_centroid)
  then obtain cache where "map fst cache = fs" "\<forall>e \<in> set cache. t_centroid T (fst e) = Ret (snd e)"
    using map_res_centroid_cache by blast
  from nearest_loop_of_features [OF this assms] show ?thesis
    by blast
qed

lemma assign_gap_of_features:
  assumes fst: "map fst cache = fs"
    and snd: "\<forall>e \<in> set cache. t_centroid T (fst e) = Ret (snd e)"
    and gap: "t_area T g = Ret a"
      "js_gt a gap_area_max
        \<or> (\<exists>c. t_centroid T g = Ret c \<and> (\<forall>f \<in> set fs. centroid_distance T c f \<noteq> NaN))"
  shows "assign_gap T gap_area_max cache g = Inr (nearest_addition T gap_area_max fs g)"
proof (cases "js_gt a gap_area_max")
  case True
  with gap(1) show ?thesis
    by (simp add: assign_gap_def nearest_addition_def)
next
  case False
  with gap(2) obtain c where c: "t_centroid T g = Ret c"
    and num: "\<forall>f \<in> set fs. centroid_distance T c f \<noteq> NaN"
    by blast
  have step: "assign_gap T gap_area_max cache g =
      (case nearest_loop T c None cache of
         Inl e \<Rightarrow> Inl e
       | Inr None \<Rightarrow> Inr []
       | Inr (Some best) \<Rightarrow> Inr [addition (snd best) g])"
    using gap(1) False c by (rule assign_gap_within_max)
  show ?thesis
  proof (cases "fs = []")
    case True
    with fst have "cache = []" by simp
    with step True gap(1) False c show ?thesis
      by (simp add: nearest_addition_def nearest_feature_def)
  next
    case False
    from nearest_loop_of_features [OF fst snd num False] obtain f where
      "nearest_feature T c fs = Some f"
      "nearest_loop T c None cache = Inr (Some (centroid_distance T c f, f))"
      by blast
    with step gap(1) \<open>\<not> js_gt a gap_area_max\<close> c show ?thesis
      by (simp add: nearest_addition_def)
  qed
qed

lemma for_each_concat:
  "\<forall>x \<in> set xs. body x = Inr (h x) \<Longrightarrow> for_each body xs = Inr (concat (map h xs))"
  by (induction xs) simp_all

lemma assign_of_features:
  assumes cen: "\<forall>f \<in> set fs. t_centroid T f \<noteq> Threw"
    and gaps: "\<forall>g \<in> set gaps. \<exists>a. t_area T g = Ret a
        \<and> (js_gt a gap_area_max
            \<or> (\<exists>c. t_centroid T g = Ret c \<and> (\<forall>f \<in> set fs. centroid_distance T c f \<noteq> NaN)))"
  shows "assignGapsToNearest T gap_area_max (FeatureCollection fs) gaps
           = Inr (concat (map (nearest_addition T gap_area_max fs) gaps))"
proof (cases "gaps = []")
  case True
  then show ?thesis by (simp add: assignGapsToNearest_def)
next
  case False
  from cen obtain cache where cache: "map_res (centroid_entry T) fs = Inr cache"
    and fst: "map fst cache = fs"
    and snd: "\<forall>e \<in> set cache. t_centroid T (fst e) = Ret (snd e)"
    using map_res_centroid_cache by blast
  have "\<forall>g \<in> set gaps. assign_gap T gap_area_max cache g
      = Inr (nearest_addition T gap_area_max fs g)"
    using gaps assign_gap_of_features [OF fst snd] by blast
  then have "for_each (assign_gap T gap_area_max cache) gaps
      = Inr (concat (map (nearest_addition T gap_area_max fs) gaps))"
    by (rule for_each_concat)
  with False cache show ?thesis
    by (simp add: assignGapsToNearest_def)
qed

text \<open>
  C5. Given distances that are numbers, the gap assigner gives a gap to the candidate at
  minimum distance from the gap's centre, and among candidates at that same distance to
  the one that comes first: every candidate before the chosen one is strictly farther,
  every candidate after it is at least as far. With no candidate nothing is emitted.
  This holds of the scan over any cache, and of the gap assigner as a whole: the
  candidates are the features it is handed, in their order, each with the centroid the
  library computes for it, and the additions are those of the nearest candidates.
\<close>

theorem nearest_first_wins:
  assumes "t_area T gap = Ret area" and "\<not> js_gt area gap_area_max"
    and "t_centroid T gap = Ret gc"
    and "\<forall>e \<in> set cache. \<exists>d. t_distance T gc (snd e) = Ret d \<and> d \<noteq> NaN"
  shows "(cache = [] \<longrightarrow> assign_gap T gap_area_max cache gap = Inr [])
       \<and> (cache \<noteq> [] \<longrightarrow>
            (\<exists>pre e post. cache = pre @ e # post
               \<and> assign_gap T gap_area_max cache gap = Inr [addition (fst e) gap]
               \<and> (\<forall>x \<in> set pre. js_lt (distance_to T gc e) (distance_to T gc x))
               \<and> (\<forall>x \<in> set post. js_le (distance_to T gc e) (distance_to T gc x))))
       \<and> (\<forall>gaps additions.
            assignGapsToNearest T gap_area_max (FeatureCollection []) gaps = Inr additions
              \<longrightarrow> additions = [])
       \<and> (\<forall>fs gaps.
            (\<forall>f \<in> set fs. t_centroid T f \<noteq> Threw) \<longrightarrow>
            (\<forall>g \<in> set gaps. \<exists>a. t_area T g = Ret a
                \<and> (js_gt a gap_area_max
                    \<or> (\<exists>c. t_centroid T g = Ret c
                          \<and> (\<forall>f \<in> set fs. centroid_distance T c f \<noteq> NaN)))) \<longrightarrow>
            assignGapsToNearest T gap_area_max (FeatureCollection fs) gaps
              = Inr (concat (map (nearest_addition T gap_area_max fs) gaps)))
       \<and> (\<forall>fs c.
            (\<forall>f \<in> set fs. centroid_distance T c f \<noteq> NaN) \<longrightarrow> fs \<noteq> [] \<longrightarrow>
            (\<exists>pre f post. fs = pre @ f # post
               \<and> nearest_feature T c fs = Some f
               \<and> (\<forall>x \<in> set pre. js_lt (centroid_distance T c f) (centroid_distance T c x))
               \<and> (\<forall>x \<in> set post. js_le (centroid_distance T c f) (centroid_distance T c x))))
       \<and> (\<forall>c. nearest_feature T c [] = None)"
proof -
  have none: "cache = [] \<longrightarrow> assign_gap T gap_area_max cache gap = Inr []"
    using assms(1-3) by (simp add: assign_gap_within_max)
  have first: "cache \<noteq> [] \<longrightarrow>
      (\<exists>pre e post. cache = pre @ e # post
         \<and> assign_gap T gap_area_max cache gap = Inr [addition (fst e) gap]
         \<and> (\<forall>x \<in> set pre. js_lt (distance_to T gc e) (distance_to T gc x))
         \<and> (\<forall>x \<in> set post. js_le (distance_to T gc e) (distance_to T gc x)))"
  proof
    assume "cache \<noteq> []"
    with assms(4) obtain pre e post where found: "cache = pre @ e # post"
      "nearest_loop T gc None cache = Inr (Some (distance_to T gc e, fst e))"
      "\<forall>x \<in> set pre. js_lt (distance_to T gc e) (distance_to T gc x)"
      "\<forall>x \<in> set post. js_le (distance_to T gc e) (distance_to T gc x)"
      using nearest_loop_first_minimum by blast
    from found(2) have "assign_gap T gap_area_max cache gap = Inr [addition (fst e) gap]"
      by (simp add: assign_gap_within_max [OF assms(1-3)])
    with found(1,3,4) show "\<exists>pre e post. cache = pre @ e # post
        \<and> assign_gap T gap_area_max cache gap = Inr [addition (fst e) gap]
        \<and> (\<forall>x \<in> set pre. js_lt (distance_to T gc e) (distance_to T gc x))
        \<and> (\<forall>x \<in> set post. js_le (distance_to T gc e) (distance_to T gc x))"
      by blast
  qed
  have empty: "\<forall>gaps additions.
      assignGapsToNearest T gap_area_max (FeatureCollection []) gaps = Inr additions
        \<longrightarrow> additions = []"
    by (blast dest: assign_no_candidates)
  have whole: "\<forall>fs gaps.
      (\<forall>f \<in> set fs. t_centroid T f \<noteq> Threw) \<longrightarrow>
      (\<forall>g \<in> set gaps. \<exists>a. t_area T g = Ret a
          \<and> (js_gt a gap_area_max
              \<or> (\<exists>c. t_centroid T g = Ret c
                    \<and> (\<forall>f \<in> set fs. centroid_distance T c f \<noteq> NaN)))) \<longrightarrow>
      assignGapsToNearest T gap_area_max (FeatureCollection fs) gaps
        = Inr (concat (map (nearest_addition T gap_area_max fs) gaps))"
    by (intro allI impI) (rule assign_of_features)
  have spec: "\<forall>fs c.
      (\<forall>f \<in> set fs. centroid_distance T c f \<noteq> NaN) \<longrightarrow> fs \<noteq> [] \<longrightarrow>
      (\<exists>pre f post. fs = pre @ f # post
         \<and> nearest_feature T c fs = Some f
         \<and> (\<forall>x \<in> set pre. js_lt (centroid_distance T c f) (centroid_distance T c x))
         \<and> (\<forall>x \<in> set post. js_le (centroid_distance T c f) (centroid_distance T c x)))"
    by (intro allI impI) (rule nearest_feature_first_minimum)
  have nil: "\<forall>c. nearest_feature T c [] = None"
    by (simp add: nearest_feature_def)
  from none first empty whole spec nil show ?thesis
    by (intro conjI)
qed

theorem nearest_first_wins_witness:
  "(\<exists>pre e post.
      [(zone ''0150'' [1, 2], point_at (Num 1)), (zone ''0151'' [5, 6], point_at (Num 5))]
        = pre @ e # post
      \<and> assign_gap line_turf PosInf
           [(zone ''0150'' [1, 2], point_at (Num 1)), (zone ''0151'' [5, 6], point_at (Num 5))]
           (patch [3]) = Inr [addition (fst e) (patch [3])]
      \<and> (\<forall>x \<in> set pre. js_lt (distance_to line_turf (point_at (Num 3)) e)
                                (distance_to line_turf (point_at (Num 3)) x))
      \<and> (\<forall>x \<in> set post. js_le (distance_to line_turf (point_at (Num 3)) e)
                                 (distance_to line_turf (point_at (Num 3)) x)))
   \<and> distance_to line_turf (point_at (Num 3)) (zone ''0150'' [1, 2], point_at (Num 1)) = Num 2
   \<and> distance_to line_turf (point_at (Num 3)) (zone ''0151'' [5, 6], point_at (Num 5)) = Num 2
   \<and> assign_gap line_turf PosInf
        [(zone ''0150'' [1, 2], point_at (Num 1)), (zone ''0151'' [5, 6], point_at (Num 5))]
        (patch [3]) = Inr [addition (zone ''0150'' [1, 2]) (patch [3])]
   \<and> centroid_distance line_turf (point_at (Num 3)) (zone ''0150'' [1, 2]) = Num 2
   \<and> centroid_distance line_turf (point_at (Num 3)) (zone ''0151'' [5, 6]) = Num 2
   \<and> centroid_distance line_turf (point_at (Num 3)) (zone ''0152'' [4, 0]) = Num 1
   \<and> assignGapsToNearest line_turf (Num 1)
        (FeatureCollection [zone ''0150'' [1, 2], zone ''0151'' [5, 6]]) [patch [3], patch [8, 9]]
       = Inr [addition (zone ''0150'' [1, 2]) (patch [3])]
   \<and> assignGapsToNearest line_turf (Num 1)
        (FeatureCollection [zone ''0151'' [5, 6], zone ''0150'' [1, 2]]) [patch [3], patch [8, 9]]
       = Inr [addition (zone ''0151'' [5, 6]) (patch [3])]
   \<and> assignGapsToNearest line_turf (Num 1)
        (FeatureCollection [zone ''0150'' [1, 2], zone ''0151'' [5, 6], zone ''0152'' [4, 0]])
        [patch [3], patch [8, 9]]
       = Inr [addition (zone ''0152'' [4, 0]) (patch [3])]"
proof -
  let ?cache = "[(zone ''0150'' [1, 2], point_at (Num 1)), (zone ''0151'' [5, 6], point_at (Num 5))]"
  let ?gaps = "[patch [3], patch [8, 9]]"
  let ?fs1 = "[zone ''0150'' [1, 2], zone ''0151'' [5, 6]]"
  let ?fs2 = "[zone ''0151'' [5, 6], zone ''0150'' [1, 2]]"
  let ?fs3 = "[zone ''0150'' [1, 2], zone ''0151'' [5, 6], zone ''0152'' [4, 0]]"
  have area: "t_area line_turf (patch [3]) = Ret (Num 1)"
    by code_simp
  have small: "\<not> js_gt (Num 1) PosInf"
    by code_simp
  have centre: "t_centroid line_turf (patch [3]) = Ret (point_at (Num 3))"
    by code_simp
  have d1: "t_distance line_turf (point_at (Num 3)) (point_at (Num 1)) = Ret (Num 2)"
    by code_simp
  have d2: "t_distance line_turf (point_at (Num 3)) (point_at (Num 5)) = Ret (Num 2)"
    by code_simp
  have dists: "\<forall>e \<in> set ?cache. \<exists>d. t_distance line_turf (point_at (Num 3)) (snd e) = Ret d \<and> d \<noteq> NaN"
    by (simp add: d1 d2)
  have chosen: "assign_gap line_turf PosInf ?cache (patch [3])
      = Inr [addition (zone ''0150'' [1, 2]) (patch [3])]"
    by code_simp
  have e1: "distance_to line_turf (point_at (Num 3)) (zone ''0150'' [1, 2], point_at (Num 1)) = Num 2"
    and e2: "distance_to line_turf (point_at (Num 3)) (zone ''0151'' [5, 6], point_at (Num 5)) = Num 2"
    by (simp_all add: distance_to_def d1 d2)
  have c1: "centroid_distance line_turf (point_at (Num 3)) (zone ''0150'' [1, 2]) = Num 2"
    and c2: "centroid_distance line_turf (point_at (Num 3)) (zone ''0151'' [5, 6]) = Num 2"
    and c3: "centroid_distance line_turf (point_at (Num 3)) (zone ''0152'' [4, 0]) = Num 1"
    by code_simp+
  note all = nearest_first_wins [OF area small centre dists]
  note inst = all [THEN conjunct2, THEN conjunct1]
  have "?cache \<noteq> []" by simp
  with inst have scan: "\<exists>pre e post. ?cache = pre @ e # post
      \<and> assign_gap line_turf PosInf ?cache (patch [3]) = Inr [addition (fst e) (patch [3])]
      \<and> (\<forall>x \<in> set pre. js_lt (distance_to line_turf (point_at (Num 3)) e)
                                (distance_to line_turf (point_at (Num 3)) x))
      \<and> (\<forall>x \<in> set post. js_le (distance_to line_turf (point_at (Num 3)) e)
                                 (distance_to line_turf (point_at (Num 3)) x))"
    by (rule mp)
  have within: "\<not> js_gt (Num 1) (Num 1)"
    and area2: "t_area line_turf (patch [8, 9]) = Ret (Num 2)" and large: "js_gt (Num 2) (Num 1)"
    by code_simp+
  have gaps: "\<forall>g \<in> set ?gaps. \<exists>a. t_area line_turf g = Ret a
      \<and> (js_gt a (Num 1)
          \<or> (\<exists>c. t_centroid line_turf g = Ret c
                \<and> (\<forall>f \<in> set fs. centroid_distance line_turf c f \<noteq> NaN)))"
    if "\<forall>f \<in> set fs. centroid_distance line_turf (point_at (Num 3)) f \<noteq> NaN" for fs
    using that area area2 large centre by simp
  note at_max = nearest_first_wins [OF area within centre dists,
      THEN conjunct2, THEN conjunct2, THEN conjunct2, THEN conjunct1]
  have whole: "assignGapsToNearest line_turf (Num 1) (FeatureCollection fs) ?gaps
      = Inr (concat (map (nearest_addition line_turf (Num 1) fs) ?gaps))"
    if "\<forall>f \<in> set fs. t_centroid line_turf f \<noteq> Threw"
      and "\<forall>f \<in> set fs. centroid_distance line_turf (point_at (Num 3)) f \<noteq> NaN" for fs
    using at_max that(1) gaps [OF that(2)] by blast
  have cen1: "\<forall>f \<in> set ?fs1. t_centroid line_turf f \<noteq> Threw"
    and num1: "\<forall>f \<in> set ?fs1. centroid_distance line_turf (point_at (Num 3)) f \<noteq> NaN"
    and cen2: "\<forall>f \<in> set ?fs2. t_centroid line_turf f \<noteq> Threw"
    and num2: "\<forall>f \<in> set ?fs2. centroid_distance line_turf (point_at (Num 3)) f \<noteq> NaN"
    and cen3: "\<forall>f \<in> set ?fs3. t_centroid line_turf f \<noteq> Threw"
    and num3: "\<forall>f \<in> set ?fs3. centroid_distance line_turf (point_at (Num 3)) f \<noteq> NaN"
    by code_simp+
  have n1: "concat (map (nearest_addition line_turf (Num 1) ?fs1) ?gaps)
      = [addition (zone ''0150'' [1, 2]) (patch [3])]"
    and n2: "concat (map (nearest_addition line_turf (Num 1) ?fs2) ?gaps)
      = [addition (zone ''0151'' [5, 6]) (patch [3])]"
    and n3: "concat (map (nearest_addition line_turf (Num 1) ?fs3) ?gaps)
      = [addition (zone ''0152'' [4, 0]) (patch [3])]"
    by code_simp+
  have r1: "assignGapsToNearest line_turf (Num 1) (FeatureCollection ?fs1) ?gaps
      = Inr [addition (zone ''0150'' [1, 2]) (patch [3])]"
    using whole [OF cen1 num1] by (simp only: n1)
  have r2: "assignGapsToNearest line_turf (Num 1) (FeatureCollection ?fs2) ?gaps
      = Inr [addition (zone ''0151'' [5, 6]) (patch [3])]"
    using whole [OF cen2 num2] by (simp only: n2)
  have r3: "assignGapsToNearest line_turf (Num 1) (FeatureCollection ?fs3) ?gaps
      = Inr [addition (zone ''0152'' [4, 0]) (patch [3])]"
    using whole [OF cen3 num3] by (simp only: n3)
  from scan e1 e2 chosen c1 c2 c3 r1 r2 r3 show ?thesis
    by (intro conjI)
qed

lemma for_each_sources:
  "for_each body xs = Inr zs \<Longrightarrow> z \<in> set zs \<Longrightarrow> \<exists>x \<in> set xs. \<exists>ys. body x = Inr ys \<and> z \<in> set ys"
proof (induction xs arbitrary: zs)
  case Nil
  then show ?case by simp
next
  case (Cons x xs)
  from Cons.prems(1) obtain ys zs' where parts: "body x = Inr ys" "for_each body xs = Inr zs'" "zs = ys @ zs'"
    by (auto split: sum.splits)
  from Cons.prems(2) parts(3) consider "z \<in> set ys" | "z \<in> set zs'"
    by auto
  then show ?case
  proof cases
    case 1
    with parts(1) show ?thesis by auto
  next
    case 2
    with Cons.IH [OF parts(2)] show ?thesis by auto
  qed
qed

lemma assign_gap_source:
  assumes "assign_gap T gap_area_max cache gap = Inr ys" and "a \<in> set ys"
  shows "\<exists>area. geometry a = geometry gap \<and> t_area T gap = Ret area \<and> \<not> js_gt area gap_area_max"
  using assms
  by (auto simp: assign_gap_def split: res.splits if_splits sum.splits option.splits)

lemma assign_sources:
  assumes "assignGapsToNearest T gap_area_max clipped gaps = Inr additions" and "a \<in> set additions"
  shows "\<exists>g \<in> set gaps. \<exists>area. geometry a = geometry g \<and> t_area T g = Ret area
           \<and> \<not> js_gt area gap_area_max"
proof -
  from assms obtain cache where "for_each (assign_gap T gap_area_max cache) gaps = Inr additions"
    by (auto simp: assignGapsToNearest_def split: if_splits option.splits sum.splits)
  from for_each_sources [OF this assms(2)] obtain g ys where
    "g \<in> set gaps" "assign_gap T gap_area_max cache g = Inr ys" "a \<in> set ys"
    by blast
  with assign_gap_source [of T gap_area_max cache g ys a] show ?thesis
    by blast
qed

lemma js_not_gt_le: "a \<noteq> NaN \<Longrightarrow> b \<noteq> NaN \<Longrightarrow> \<not> js_gt a b \<Longrightarrow> js_le a b"
  unfolding js_gt_def by (rule js_not_lt)

text \<open>
  C4. A gap whose area exceeds the configured maximum gets no output feature; every
  feature the gap assigner emits has the geometry of a gap whose area does not exceed
  the maximum (and is at most the maximum, both being numbers).
\<close>

theorem large_gap_discarded:
  "(\<forall>area. t_area T gap = Ret area \<longrightarrow> js_gt area gap_area_max \<longrightarrow>
       assign_gap T gap_area_max cache gap = Inr [])
   \<and> (\<forall>additions. assignGapsToNearest T gap_area_max clipped gaps = Inr additions \<longrightarrow>
        (\<forall>a \<in> set additions. \<exists>g \<in> set gaps. \<exists>area.
            geometry a = geometry g \<and> t_area T g = Ret area \<and> \<not> js_gt area gap_area_max
            \<and> (area \<noteq> NaN \<and> gap_area_max \<noteq> NaN \<longrightarrow> js_le area gap_area_max)))"
proof (intro conjI allI impI ballI)
  fix area
  assume "t_area T gap = Ret area" "js_gt area gap_area_max"
  then show "assign_gap T gap_area_max cache gap = Inr []"
    by (simp add: assign_gap_def)
next
  fix additions a
  assume "assignGapsToNearest T gap_area_max clipped gaps = Inr additions" "a \<in> set additions"
  then obtain g area where "g \<in> set gaps" "geometry a = geometry g" "t_area T g = Ret area"
    "\<not> js_gt area gap_area_max"
    using assign_sources by blast
  then show "\<exists>g \<in> set gaps. \<exists>area.
      geometry a = geometry g \<and> t_area T g = Ret area \<and> \<not> js_gt area gap_area_max
      \<and> (area \<noteq> NaN \<and> gap_area_max \<noteq> NaN \<longrightarrow> js_le area gap_area_max)"
    using js_not_gt_le by blast
qed

theorem large_gap_discarded_witness:
  "t_area line_turf (patch [3, 4]) = Ret (Num 2)
   \<and> js_gt (Num 2) (Num 1)
   \<and> assign_gap line_turf (Num 1) [(zone ''0150'' [1, 2], point_at (Num 1))] (patch [3, 4]) = Inr []
   \<and> assignGapsToNearest line_turf (Num 1) (FeatureCollection [zone ''0150'' [1, 2]])
        [patch [3, 4], patch [8]] = Inr [addition (zone ''0150'' [1, 2]) (patch [8])]
   \<and> (\<exists>g \<in> set [patch [3, 4], patch [8]]. \<exists>area.
        geometry (addition (zone ''0150'' [1, 2]) (patch [8])) = geometry g
        \<and> t_area line_turf g = Ret area \<and> \<not> js_gt area (Num 1))"
proof -
  have area: "t_area line_turf (patch [3, 4]) = Ret (Num 2)"
    by code_simp
  have large: "js_gt (Num 2) (Num 1)"
    by code_simp
  have adds: "assignGapsToNearest line_turf (Num 1) (FeatureCollection [zone ''0150'' [1, 2]])
        [patch [3, 4], patch [8]] = Inr [addition (zone ''0150'' [1, 2]) (patch [8])]"
    by code_simp
  note inst = large_gap_discarded [of line_turf "patch [3, 4]" "Num 1"
      "[(zone ''0150'' [1, 2], point_at (Num 1))]" "FeatureCollection [zone ''0150'' [1, 2]]"
      "[patch [3, 4], patch [8]]"]
  from inst area large
  have none: "assign_gap line_turf (Num 1) [(zone ''0150'' [1, 2], point_at (Num 1))] (patch [3, 4]) = Inr []"
    by blast
  from inst adds
  have "\<forall>a \<in> set [addition (zone ''0150'' [1, 2]) (patch [8])].
      \<exists>g \<in> set [patch [3, 4], patch [8]]. \<exists>area.
        geometry a = geometry g \<and> t_area line_turf g = Ret area \<and> \<not> js_gt area (Num 1)"
    by blast
  then have "\<exists>g \<in> set [patch [3, 4], patch [8]]. \<exists>area.
        geometry (addition (zone ''0150'' [1, 2]) (patch [8])) = geometry g
        \<and> t_area line_turf g = Ret area \<and> \<not> js_gt area (Num 1)"
    by simp
  with area large none adds show ?thesis
    by (intro conjI)
qed

lemma nearest_loop_some:
  "nearest_loop T gc (Some b) cache = Inr r \<Longrightarrow> r \<noteq> None"
  by (induction cache arbitrary: b) (auto split: res.splits if_splits)

lemma nearest_loop_nonempty:
  "cache \<noteq> [] \<Longrightarrow> nearest_loop T gc None cache = Inr r \<Longrightarrow> r \<noteq> None"
  by (cases cache) (auto split: res.splits dest: nearest_loop_some)

lemma assign_gap_unbounded_eq:
  "(\<And>area. \<not> js_gt area m) \<Longrightarrow> assign_gap T m cache gap = assign_gap T PosInf cache gap"
  by (simp add: assign_gap_def js_gt_PosInf split: res.splits)

lemma assign_gap_unbounded_keeps:
  assumes "\<And>area. \<not> js_gt area m" and "cache \<noteq> []" and "assign_gap T m cache gap = Inr ys"
  shows "map geometry ys = [geometry gap]"
  using assms nearest_loop_nonempty [OF assms(2)]
  by (auto simp: assign_gap_def split: res.splits sum.splits option.splits)

lemma for_each_map:
  "(\<And>x ys. body x = Inr ys \<Longrightarrow> map g ys = [h x]) \<Longrightarrow> for_each body xs = Inr zs \<Longrightarrow>
     map g zs = map h xs"
proof (induction xs arbitrary: zs)
  case Nil
  then show ?case by simp
next
  case (Cons x xs)
  from Cons.prems(2) obtain ys zs' where parts: "body x = Inr ys" "for_each body xs = Inr zs'" "zs = ys @ zs'"
    by (auto split: sum.splits)
  from Cons.prems(1) [OF parts(1)] Cons.IH [OF Cons.prems(1) parts(2)] parts(3)
  show ?case by simp
qed

lemma map_res_fst:
  "map_res (centroid_entry T) fs = Inr cache \<Longrightarrow> map fst cache = fs"
  by (induction fs arbitrary: cache)
    (auto simp: centroid_entry_def split: res.splits sum.splits)

lemma assign_unbounded_eq:
  assumes "\<And>area. \<not> js_gt area m"
  shows "assignGapsToNearest T m clipped gaps = assignGapsToNearest T PosInf clipped gaps"
proof -
  have "assign_gap T m cache = assign_gap T PosInf cache" for cache
    using assms by (intro ext assign_gap_unbounded_eq)
  then show ?thesis
    by (simp add: assignGapsToNearest_def split: option.splits sum.splits)
qed

lemma assign_unbounded_keeps:
  assumes unb: "\<And>area. \<not> js_gt area m" and "fs \<noteq> []"
    and "assignGapsToNearest T m (FeatureCollection fs) gaps = Inr additions"
  shows "map geometry additions = map geometry gaps"
proof (cases "gaps = []")
  case True
  with assms(3) show ?thesis by (simp add: assignGapsToNearest_def)
next
  case False
  with assms(3) obtain cache where cache: "map_res (centroid_entry T) fs = Inr cache"
    and each: "for_each (assign_gap T m cache) gaps = Inr additions"
    by (auto simp: assignGapsToNearest_def split: sum.splits)
  from cache assms(2) have "cache \<noteq> []"
    using map_res_fst by fastforce
  with unb have "\<And>gap ys. assign_gap T m cache gap = Inr ys \<Longrightarrow> map geometry ys = [geometry gap]"
    by (rule assign_gap_unbounded_keeps)
  from for_each_map [of "assign_gap T m cache" geometry geometry, OF this each]
  show ?thesis .
qed

text \<open>
  C10. When \<^verbatim>\<open>GAP_AREA_MAX\<close> is set to a non-empty string that \<^verbatim>\<open>Number\<close> turns into \<^verbatim>\<open>NaN\<close>,
  the configured maximum is \<^verbatim>\<open>NaN\<close>, no area is greater than it, and the gap assigner works
  as it does with the maximum \<^verbatim>\<open>Infinity\<close>: no gap is discarded for its area, and with at
  least one candidate every gap gets an addition.
\<close>

theorem unparsable_max_is_unbounded:
  assumes "env S ''GAP_AREA_MAX'' = Some s" and "s \<noteq> []" and "Number S s = NaN"
  shows "GAP_AREA_MAX S = NaN
       \<and> (\<forall>area. \<not> js_gt area (GAP_AREA_MAX S))
       \<and> assign_gap T (GAP_AREA_MAX S) cache gap = assign_gap T PosInf cache gap
       \<and> assignGapsToNearest T (GAP_AREA_MAX S) clipped gaps
           = assignGapsToNearest T PosInf clipped gaps
       \<and> (\<forall>fs additions. fs \<noteq> [] \<longrightarrow>
            assignGapsToNearest T (GAP_AREA_MAX S) (FeatureCollection fs) gaps = Inr additions \<longrightarrow>
            map geometry additions = map geometry gaps)"
proof -
  from assms have nan: "GAP_AREA_MAX S = NaN"
    by (simp add: GAP_AREA_MAX_def)
  then have unb: "\<And>area. \<not> js_gt area (GAP_AREA_MAX S)"
    by (simp add: js_gt_NaN)
  show ?thesis
  proof (intro conjI allI impI)
    show "GAP_AREA_MAX S = NaN" by (rule nan)
    show "\<not> js_gt area (GAP_AREA_MAX S)" for area by (rule unb)
    show "assign_gap T (GAP_AREA_MAX S) cache gap = assign_gap T PosInf cache gap"
      using unb by (rule assign_gap_unbounded_eq)
    show "assignGapsToNearest T (GAP_AREA_MAX S) clipped gaps
        = assignGapsToNearest T PosInf clipped gaps"
      using unb by (rule assign_unbounded_eq)
    show "map geometry additions = map geometry gaps"
      if "fs \<noteq> []" "assignGapsToNearest T (GAP_AREA_MAX S) (FeatureCollection fs) gaps = Inr additions"
      for fs additions
      using unb that by (rule assign_unbounded_keeps)
  qed
qed

theorem unparsable_max_is_unbounded_witness:
  "GAP_AREA_MAX (sys_of [(''GAP_AREA_MAX'', ''abc'')] []) = NaN
   \<and> assignGapsToNearest line_turf (GAP_AREA_MAX (sys_of [(''GAP_AREA_MAX'', ''abc'')] []))
        (FeatureCollection [zone ''0150'' [1, 2]]) [patch [3, 4], patch [8]]
       = Inr [addition (zone ''0150'' [1, 2]) (patch [3, 4]), addition (zone ''0150'' [1, 2]) (patch [8])]
   \<and> assignGapsToNearest line_turf PosInf
        (FeatureCollection [zone ''0150'' [1, 2]]) [patch [3, 4], patch [8]]
       = Inr [addition (zone ''0150'' [1, 2]) (patch [3, 4]), addition (zone ''0150'' [1, 2]) (patch [8])]"
proof -
  let ?S = "sys_of [(''GAP_AREA_MAX'', ''abc'')] []"
  have var: "env ?S ''GAP_AREA_MAX'' = Some ''abc''"
    by code_simp
  have nonempty: "''abc'' \<noteq> []"
    by simp
  have nan: "Number ?S ''abc'' = NaN"
    by code_simp
  have unbounded: "assignGapsToNearest line_turf PosInf
        (FeatureCollection [zone ''0150'' [1, 2]]) [patch [3, 4], patch [8]]
       = Inr [addition (zone ''0150'' [1, 2]) (patch [3, 4]), addition (zone ''0150'' [1, 2]) (patch [8])]"
    by code_simp
  note inst = unparsable_max_is_unbounded [OF var nonempty nan, of line_turf
      "[]" "patch [8]" "FeatureCollection [zone ''0150'' [1, 2]]" "[patch [3, 4], patch [8]]"]
  from inst have is_nan: "GAP_AREA_MAX ?S = NaN"
    by (rule conjunct1)
  from inst have "assignGapsToNearest line_turf (GAP_AREA_MAX ?S)
        (FeatureCollection [zone ''0150'' [1, 2]]) [patch [3, 4], patch [8]]
      = assignGapsToNearest line_turf PosInf
        (FeatureCollection [zone ''0150'' [1, 2]]) [patch [3, 4], patch [8]]"
    by blast
  then have kept: "assignGapsToNearest line_turf (GAP_AREA_MAX ?S)
        (FeatureCollection [zone ''0150'' [1, 2]]) [patch [3, 4], patch [8]]
       = Inr [addition (zone ''0150'' [1, 2]) (patch [3, 4]), addition (zone ''0150'' [1, 2]) (patch [8])]"
    using unbounded by (rule trans)
  from is_nan kept unbounded show ?thesis
    by (intro conjI)
qed

section \<open>Properties of the boundary clipper\<close>

lemma common_point_overlaps:
  assumes "inside p a" and "inside p b"
  shows "overlaps a b"
proof -
  obtain x y where p: "p = (x, y)" by (cases p)
  obtain a0 a1 a2 a3 where a: "a = (a0, a1, a2, a3)" by (cases a)
  obtain b0 b1 b2 b3 where b: "b = (b0, b1, b2, b3)" by (cases b)
  from assms show ?thesis
    unfolding p a b by (auto simp: js_ge_def intro: js_le_trans)
qed

lemma clip_feature_in_clipped:
  assumes "t_bbox T landMask = Ret landBbox" and "f \<in> set (features_or_empty postalData)"
  shows "\<exists>clipped. clipPostalCodes T postalData landMask = Inr clipped
           \<and> set (clip_feature T landMask landBbox f) \<subseteq> set clipped"
  using assms by (auto simp: clipPostalCodes_def)

text \<open>
  C8. The rectangle test rejects no feature that truly overlaps the mask. Read features
  as sets of points in any way for which the library's boxes bound them: a feature that
  shares a point with the mask then passes the test, and the clipper hands it to the
  exact intersection instead of skipping it.
\<close>

theorem bbox_prefilter_keeps_overlaps:
  assumes "geometry f \<noteq> None"
    and "t_bbox T f = Ret featureBbox"
    and "\<forall>p \<in> region f. inside p featureBbox"
    and "\<forall>p \<in> region landMask. inside p landBbox"
    and "region f \<inter> region landMask \<noteq> {}"
  shows "overlaps featureBbox landBbox
       \<and> clip_feature T landMask landBbox f = intersect_feature T landMask f
       \<and> (t_bbox T landMask = Ret landBbox \<longrightarrow> f \<in> set (features_or_empty postalData) \<longrightarrow>
            (\<exists>clipped. clipPostalCodes T postalData landMask = Inr clipped
               \<and> set (intersect_feature T landMask f) \<subseteq> set clipped))"
proof -
  from assms(5) obtain p where "p \<in> region f" "p \<in> region landMask"
    by blast
  with assms(3,4) have "inside p featureBbox" "inside p landBbox"
    by blast+
  then have ov: "overlaps featureBbox landBbox"
    by (rule common_point_overlaps)
  with assms(1,2) have eq: "clip_feature T landMask landBbox f = intersect_feature T landMask f"
    by (auto simp: clip_feature_def)
  from ov eq clip_feature_in_clipped [of T landMask landBbox f postalData] show ?thesis
    by auto
qed

theorem bbox_prefilter_keeps_overlaps_witness:
  "overlaps (Num 1, Num 0, Num 3, Num 0) (Num 3, Num 0, Num 4, Num 0)
   \<and> clip_feature line_turf (patch [3, 4]) (Num 3, Num 0, Num 4, Num 0) (zone ''0150'' [1, 2, 3])
       = intersect_feature line_turf (patch [3, 4]) (zone ''0150'' [1, 2, 3])
   \<and> (Num 3, Num 0) \<in> line_region (zone ''0150'' [1, 2, 3]) \<inter> line_region (patch [3, 4])
   \<and> clipPostalCodes line_turf (FeatureCollection [zone ''0150'' [1, 2, 3], zone ''0151'' [7]]) (patch [3, 4])
       = Inr [\<lparr>properties = Some [(''postnummer'', JStr ''0150'')],
               geometry = Some \<lparr>gtype = ''Polygon'', coordinates = A [N (Num 3)]\<rparr>\<rparr>]"
proof -
  have geom: "geometry (zone ''0150'' [1, 2, 3]) \<noteq> None"
    by code_simp
  have box: "t_bbox line_turf (zone ''0150'' [1, 2, 3]) = Ret (Num 1, Num 0, Num 3, Num 0)"
    by code_simp
  have bound_f: "\<forall>p \<in> line_region (zone ''0150'' [1, 2, 3]). inside p (Num 1, Num 0, Num 3, Num 0)"
    by code_simp
  have bound_m: "\<forall>p \<in> line_region (patch [3, 4]). inside p (Num 3, Num 0, Num 4, Num 0)"
    by code_simp
  have common: "(Num 3, Num 0) \<in> line_region (zone ''0150'' [1, 2, 3]) \<inter> line_region (patch [3, 4])"
    by code_simp
  then have meet: "line_region (zone ''0150'' [1, 2, 3]) \<inter> line_region (patch [3, 4]) \<noteq> {}"
    by blast
  have clipped: "clipPostalCodes line_turf
      (FeatureCollection [zone ''0150'' [1, 2, 3], zone ''0151'' [7]]) (patch [3, 4])
       = Inr [\<lparr>properties = Some [(''postnummer'', JStr ''0150'')],
               geometry = Some \<lparr>gtype = ''Polygon'', coordinates = A [N (Num 3)]\<rparr>\<rparr>]"
    by code_simp
  note inst = bbox_prefilter_keeps_overlaps [OF geom box bound_f bound_m meet]
  from inst have "overlaps (Num 1, Num 0, Num 3, Num 0) (Num 3, Num 0, Num 4, Num 0)"
    by (rule conjunct1)
  moreover from inst have "clip_feature line_turf (patch [3, 4]) (Num 3, Num 0, Num 4, Num 0)
      (zone ''0150'' [1, 2, 3]) = intersect_feature line_turf (patch [3, 4]) (zone ''0150'' [1, 2, 3])"
    by blast
  ultimately show ?thesis
    using common clipped by (intro conjI)
qed

section \<open>Properties of the run\<close>

lemma in_codes: "p \<in> codes fs \<longleftrightarrow> (\<exists>f \<in> set fs. postnummer f = Some p)"
  by (induction fs) (auto simp: codes_def List.map_filter_def)

lemma in_codes_map: "p \<in> codes fs \<longleftrightarrow> Some p \<in> set (map postnummer fs)"
  by (induction fs) (auto simp: codes_def List.map_filter_def)

lemma codes_subset:
  assumes "\<And>f. f \<in> set fs \<Longrightarrow> \<exists>g \<in> set gs. postnummer f = postnummer g"
  shows "codes fs \<subseteq> codes gs"
proof
  fix p
  assume "p \<in> codes fs"
  then obtain f where "f \<in> set fs" "postnummer f = Some p"
    unfolding in_codes by blast
  with assms [of f] show "p \<in> codes gs"
    unfolding in_codes by auto
qed

lemma codes_append: "codes (fs @ gs) = codes fs \<union> codes gs"
  by (auto simp: in_codes)

lemma postnummer_copied:
  "postnummer \<lparr>properties = Some (properties_or_empty f), geometry = g\<rparr> = postnummer f"
  by (cases "properties f") (simp_all add: postnummer_def properties_or_empty_def)

lemma clip_feature_code:
  "c \<in> set (clip_feature T landMask landBbox f) \<Longrightarrow> postnummer c = postnummer f"
  by (auto simp: clip_feature_def intersect_feature_def postnummer_copied
      split: if_splits res.splits option.splits)

lemma codes_clipped:
  assumes "clipPostalCodes T postalData landMask = Inr clipped"
  shows "codes clipped \<subseteq> codes (features_or_empty postalData)"
proof (rule codes_subset)
  fix c
  assume "c \<in> set clipped"
  with assms obtain landBbox f where "f \<in> set (features_or_empty postalData)"
    "c \<in> set (clip_feature T landMask landBbox f)"
    by (auto simp: clipPostalCodes_def split: res.splits)
  then show "\<exists>g \<in> set (features_or_empty postalData). postnummer c = postnummer g"
    using clip_feature_code by blast
qed

lemma nearest_loop_chosen:
  "nearest_loop T gc best cache = Inr (Some r) \<Longrightarrow>
     snd r \<in> fst ` set cache \<or> (\<exists>b. best = Some b \<and> snd r = snd b)"
proof (induction cache arbitrary: best)
  case Nil
  then show ?case by simp
next
  case (Cons e cache)
  from Cons.prems obtain d best' where
    next_best: "nearest_loop T gc best' cache = Inr (Some r)"
    and best': "best' = Some (d, fst e) \<or> best' = best"
    by (auto split: res.splits option.splits if_splits)
  from Cons.IH [OF next_best] best' show ?case
    by auto
qed

lemma assign_gap_code:
  assumes "assign_gap T gap_area_max cache gap = Inr ys" and "a \<in> set ys"
  shows "\<exists>f \<in> fst ` set cache. postnummer a = postnummer f"
proof -
  from assms obtain gc r where "nearest_loop T gc None cache = Inr (Some r)"
    and a: "a = \<lparr>properties = Some (properties_or_empty (snd r)), geometry = geometry gap\<rparr>"
    by (auto simp: assign_gap_def split: res.splits if_splits sum.splits option.splits)
  from nearest_loop_chosen [OF this(1)] have "snd r \<in> fst ` set cache"
    by simp
  moreover from a have "postnummer a = postnummer (snd r)"
    by (simp add: postnummer_copied)
  ultimately show ?thesis
    by blast
qed

lemma codes_additions:
  assumes "assignGapsToNearest T gap_area_max clipped gaps = Inr additions"
  shows "codes additions \<subseteq> codes (features_or_empty clipped)"
proof (rule codes_subset)
  fix a
  assume a: "a \<in> set additions"
  with assms have "gaps \<noteq> []"
    by (auto simp: assignGapsToNearest_def)
  with assms obtain fs cache where fs: "features clipped = Some fs"
    and cache: "map_res (centroid_entry T) fs = Inr cache"
    and each: "for_each (assign_gap T gap_area_max cache) gaps = Inr additions"
    by (auto simp: assignGapsToNearest_def split: option.splits sum.splits)
  from for_each_sources [OF each a] obtain gap ys where
    ys: "assign_gap T gap_area_max cache gap = Inr ys" "a \<in> set ys"
    by blast
  from assign_gap_code [OF ys] obtain f where f: "f \<in> fst ` set cache" "postnummer a = postnummer f"
    by blast
  from map_res_fst [OF cache] have "set (map fst cache) = set fs"
    by simp
  then have "fst ` set cache = set fs"
    by simp
  with f have "f \<in> set fs"
    by simp
  moreover from fs have "features_or_empty clipped = fs"
    by (simp add: features_or_empty_def)
  ultimately show "\<exists>g \<in> set (features_or_empty clipped). postnummer a = postnummer g"
    using f(2) by blast
qed

lemma group_push_key_set:
  "set (map fst (group_push p f grouped)) = insert p (set (map fst grouped))"
  by (auto simp: group_push_keys)

lemma group_loop_keys:
  "set (map fst (group_loop grouped fs)) \<subseteq> set (map fst grouped) \<union> codes fs"
proof (induction fs arbitrary: grouped)
  case Nil
  then show ?case by simp
next
  case (Cons f fs)
  have tail: "codes fs \<subseteq> codes (f # fs)"
    by (auto simp: in_codes)
  show ?case
  proof (cases "postnummer f")
    case None
    with Cons.IH [of grouped] tail show ?thesis by auto
  next
    case (Some p)
    then have p: "p \<in> codes (f # fs)"
      by (auto simp: in_codes)
    show ?thesis
    proof (cases "truthy p")
      case True
      with Some have step: "group_loop grouped (f # fs) = group_loop (group_push p f grouped) fs"
        by simp
      have "set (map fst (group_loop (group_push p f grouped) fs))
          \<subseteq> insert p (set (map fst grouped)) \<union> codes fs"
        using Cons.IH [of "group_push p f grouped"] by (simp only: group_push_key_set)
      with tail p show ?thesis
        unfolding step by blast
    next
      case False
      with Some Cons.IH [of grouped] tail show ?thesis by auto
    qed
  qed
qed

lemma codes_dissolved: "codes (dissolveByPostnummer T fs) \<subseteq> codes fs"
proof
  fix p
  assume "p \<in> codes (dissolveByPostnummer T fs)"
  then have "Some p \<in> set (map postnummer (dissolveByPostnummer T fs))"
    by (simp only: in_codes_map)
  with emitted_keys [OF dissolve_emitted [of fs T]] have "p \<in> set (map fst (group_loop [] fs))"
    by auto
  with group_loop_keys [of "[]" fs] show "p \<in> codes fs"
    by auto
qed

lemma codes_labels: "codes (buildLabelPoints T (FeatureCollection ds)) \<subseteq> codes ds"
proof
  fix p
  assume "p \<in> codes (buildLabelPoints T (FeatureCollection ds))"
  then have "Some p \<in> set (map postnummer (buildLabelPoints T (FeatureCollection ds)))"
    by (simp only: in_codes_map)
  then have "Some p \<in> set (map postnummer (filter (\<lambda>d. t_centroid T d \<noteq> Threw) ds))"
    by (simp only: buildLabelPoints_codes)
  then show "p \<in> codes ds"
    by (auto simp: in_codes_map)
qed

lemma codes_gapfill_border:
  assumes "gapfill_border S T postalData = Inr out"
  shows "codes (features_or_empty out) \<subseteq> codes (features_or_empty postalData)"
proof -
  from assms obtain gaps additions where
    adds: "assignGapsToNearest T (GAP_AREA_MAX S) postalData gaps = Inr additions"
    and out: "out = FeatureCollection (features_or_empty postalData @ additions)"
    by (auto simp: gapfill_border_def Let_def split: if_splits sum.splits)
  from codes_additions [OF adds] out show ?thesis
    by (auto simp: features_or_empty_def codes_append)
qed

lemma codes_clip_and_fill:
  assumes "clip_and_fill S T postalData = Inr out"
  shows "codes (features_or_empty out) \<subseteq> codes (features_or_empty postalData)"
proof -
  from assms obtain landMask clipped where
    clipped: "clipPostalCodes T postalData landMask = Inr clipped"
    and out: "out = FeatureCollection clipped
        \<or> (\<exists>gaps additions.
              assignGapsToNearest T (GAP_AREA_MAX S) (FeatureCollection clipped) gaps = Inr additions
              \<and> out = FeatureCollection (clipped @ additions))"
    by (auto simp: clip_and_fill_def Let_def split: if_splits sum.splits)
  from out have "codes (features_or_empty out) \<subseteq> codes clipped"
  proof (elim disjE exE conjE)
    assume "out = FeatureCollection clipped"
    then show ?thesis by (simp add: features_or_empty_def)
  next
    fix gaps additions
    assume adds: "assignGapsToNearest T (GAP_AREA_MAX S) (FeatureCollection clipped) gaps = Inr additions"
      and "out = FeatureCollection (clipped @ additions)"
    with codes_additions [OF adds] show ?thesis
      by (auto simp: features_or_empty_def codes_append)
  qed
  with codes_clipped [OF clipped] show ?thesis
    by blast
qed

lemma codes_build_output:
  assumes "build_output S T postalData = Inr out"
  shows "codes (features_or_empty out) \<subseteq> codes (features_or_empty postalData)"
  using assms codes_gapfill_border codes_clip_and_fill
  by (auto simp: build_output_def split: if_splits)

lemma run_codes:
  "file_codes (dissolved_file (run S T)) \<subseteq> file_codes (readJSON S POSTAL_PATH)
   \<and> file_codes (labels_file (run S T)) \<subseteq> file_codes (readJSON S POSTAL_PATH)"
proof (cases "readJSON S POSTAL_PATH")
  case None
  then show ?thesis
    by (simp add: run_def loadGeoJSON_def file_codes_def)
next
  case (Some postalData)
  show ?thesis
  proof (cases "build_output S T postalData")
    case (Inl e)
    with Some show ?thesis
      by (simp add: run_def loadGeoJSON_def file_codes_def)
  next
    case (Inr out)
    show ?thesis
    proof (cases "features out")
      case None
      with Some Inr show ?thesis
        by (simp add: run_def loadGeoJSON_def file_codes_def)
    next
      case (Some fs)
      let ?ds = "dissolveByPostnummer T fs"
      let ?ls = "buildLabelPoints T (FeatureCollection ?ds)"
      from Some have fs: "features_or_empty out = fs"
        by (simp add: features_or_empty_def)
      have "codes ?ls \<subseteq> codes ?ds"
        by (rule codes_labels)
      also have "codes ?ds \<subseteq> codes fs"
        by (rule codes_dissolved)
      also (subset_trans) have "codes fs \<subseteq> codes (features_or_empty postalData)"
        using codes_build_output [OF Inr] fs by simp
      finally (subset_trans) have ls: "codes ?ls \<subseteq> codes (features_or_empty postalData)" .
      have ds: "codes ?ds \<subseteq> codes (features_or_empty postalData)"
        using codes_dissolved [of T fs] codes_build_output [OF Inr] fs by auto
      from \<open>readJSON S POSTAL_PATH = Some postalData\<close> Inr Some ls ds show ?thesis
        by (simp add: run_def loadGeoJSON_def file_codes_def Let_def features_or_empty_def)
    qed
  qed
qed

text \<open>
  C1. In every run, and so in every run in a mode other than \<^verbatim>\<open>none\<close>, each code in the
  dissolved output and each code in the label output is a code of the input postal
  collection: the gap assigner gives an addition the properties of one of the features
  it was handed, and the dissolver emits only codes of the features it was handed.
\<close>

theorem output_codes_from_input:
  "file_codes (dissolved_file (script S T)) \<subseteq> file_codes (readJSON S POSTAL_PATH)
   \<and> file_codes (labels_file (script S T)) \<subseteq> file_codes (readJSON S POSTAL_PATH)
   \<and> (\<forall>additions. assignGapsToNearest T gap_area_max clipped gaps = Inr additions \<longrightarrow>
         codes additions \<subseteq> codes (features_or_empty clipped))
   \<and> codes (dissolveByPostnummer T fs) \<subseteq> codes fs"
proof (intro conjI allI impI)
  show "file_codes (dissolved_file (script S T)) \<subseteq> file_codes (readJSON S POSTAL_PATH)"
    using run_codes [of S T] by (simp add: script_def file_codes_def)
  show "file_codes (labels_file (script S T)) \<subseteq> file_codes (readJSON S POSTAL_PATH)"
    using run_codes [of S T] by (simp add: script_def file_codes_def)
  show "codes additions \<subseteq> codes (features_or_empty clipped)"
    if "assignGapsToNearest T gap_area_max clipped gaps = Inr additions" for additions
    using that by (rule codes_additions)
  show "codes (dissolveByPostnummer T fs) \<subseteq> codes fs"
    by (rule codes_dissolved)
qed

theorem output_codes_from_input_witness:
  "CLIP_MODE (sys_of [(''NORWAY_MASK_PATH'', ''land.json'')]
      [(POSTAL_PATH, FeatureCollection [zone ''0150'' [1, 2], zone ''0151'' [5, 6], zone ''0152'' [20]]),
       (''land.json'', FeatureCollection [patch [1, 2, 3], patch [4, 5, 6, 7]])]) = ''coast''
   \<and> file_codes (readJSON (sys_of [(''NORWAY_MASK_PATH'', ''land.json'')]
      [(POSTAL_PATH, FeatureCollection [zone ''0150'' [1, 2], zone ''0151'' [5, 6], zone ''0152'' [20]]),
       (''land.json'', FeatureCollection [patch [1, 2, 3], patch [4, 5, 6, 7]])]) POSTAL_PATH)
       = {JStr ''0150'', JStr ''0151'', JStr ''0152''}
   \<and> file_codes (dissolved_file (script (sys_of [(''NORWAY_MASK_PATH'', ''land.json'')]
      [(POSTAL_PATH, FeatureCollection [zone ''0150'' [1, 2], zone ''0151'' [5, 6], zone ''0152'' [20]]),
       (''land.json'', FeatureCollection [patch [1, 2, 3], patch [4, 5, 6, 7]])]) line_turf))
       = {JStr ''0150'', JStr ''0151''}
   \<and> file_codes (labels_file (script (sys_of [(''NORWAY_MASK_PATH'', ''land.json'')]
      [(POSTAL_PATH, FeatureCollection [zone ''0150'' [1, 2], zone ''0151'' [5, 6], zone ''0152'' [20]]),
       (''land.json'', FeatureCollection [patch [1, 2, 3], patch [4, 5, 6, 7]])]) line_turf))
       \<subseteq> file_codes (readJSON (sys_of [(''NORWAY_MASK_PATH'', ''land.json'')]
      [(POSTAL_PATH, FeatureCollection [zone ''0150'' [1, 2], zone ''0151'' [5, 6], zone ''0152'' [20]]),
       (''land.json'', FeatureCollection [patch [1, 2, 3], patch [4, 5, 6, 7]])]) POSTAL_PATH)"
proof -
  let ?S = "sys_of [(''NORWAY_MASK_PATH'', ''land.json'')]
      [(POSTAL_PATH, FeatureCollection [zone ''0150'' [1, 2], zone ''0151'' [5, 6], zone ''0152'' [20]]),
       (''land.json'', FeatureCollection [patch [1, 2, 3], patch [4, 5, 6, 7]])]"
  have mode: "CLIP_MODE ?S = ''coast''"
    by code_simp
  have input: "file_codes (readJSON ?S POSTAL_PATH) = {JStr ''0150'', JStr ''0151'', JStr ''0152''}"
    by code_simp
  have dissolved: "file_codes (dissolved_file (script ?S line_turf)) = {JStr ''0150'', JStr ''0151''}"
    by code_simp
  from output_codes_from_input [of ?S line_turf]
  have "file_codes (labels_file (script ?S line_turf)) \<subseteq> file_codes (readJSON ?S POSTAL_PATH)"
    by blast
  with mode input dissolved show ?thesis
    by (intro conjI)
qed

text \<open>
  C7. In mode \<^verbatim>\<open>none\<close> the first output is the input postal document itself, whatever
  the geometry library does and whatever masks are configured or present: no mask is
  loaded, normalized or unified, nothing is clipped, and no gap is built or assigned.
\<close>

theorem mode_none_output_is_input:
  assumes "CLIP_MODE S = ''none''" and "readJSON S POSTAL_PATH = Some postalData"
  shows "build_output S T postalData = Inr postalData
       \<and> output_file (run S T) = Some postalData
       \<and> output_file (script S T) = Some postalData"
proof -
  from assms(1) have out: "build_output S T postalData = Inr postalData"
    by (simp add: build_output_def)
  with assms(2) have "output_file (run S T) = Some postalData"
    by (simp add: run_def loadGeoJSON_def Let_def split: option.splits)
  moreover from assms(1) have "script S T = run S T"
    by (simp add: script_def)
  ultimately show ?thesis
    using out by simp
qed

theorem mode_none_output_is_input_witness:
  "CLIP_MODE (sys_of [(''CLIP_MODE'', ''none'')]
      [(POSTAL_PATH, FeatureCollection [zone ''0150'' [1, 2], broken, zone ''0150'' [2, 3]])]) = ''none''
   \<and> output_file (script (sys_of [(''CLIP_MODE'', ''none'')]
      [(POSTAL_PATH, FeatureCollection [zone ''0150'' [1, 2], broken, zone ''0150'' [2, 3]])]) line_turf)
      = Some (FeatureCollection [zone ''0150'' [1, 2], broken, zone ''0150'' [2, 3]])"
proof -
  let ?S = "sys_of [(''CLIP_MODE'', ''none'')]
      [(POSTAL_PATH, FeatureCollection [zone ''0150'' [1, 2], broken, zone ''0150'' [2, 3]])]"
  have mode: "CLIP_MODE ?S = ''none''"
    by code_simp
  have postal: "readJSON ?S POSTAL_PATH
      = Some (FeatureCollection [zone ''0150'' [1, 2], broken, zone ''0150'' [2, 3]])"
    by code_simp
  from mode_none_output_is_input [OF mode postal, of line_turf] mode show ?thesis
    by blast
qed

end
